theory Spec2Isabelle
  imports Main "HOL-Library.AList"
begin

section \<open>JavaScript values used by \<open>resources.ts\<close>\<close>

text \<open>
  A JavaScript \<open>Map\<close> keeps its entries in insertion order, \<open>set\<close> on a key that is
  present replaces the value in place and \<open>set\<close> on a new key appends, \<open>delete\<close> drops
  the entry. An association list with \<^const>\<open>AList.update\<close>, \<^const>\<open>AList.delete\<close>
  and \<^const>\<open>map_of\<close> has exactly these operations; \<open>has\<close> and \<open>get\<close> are below.
\<close>

type_synonym ('k, 'v) js_map = "('k \<times> 'v) list"

definition Map_has :: "('k, 'v) js_map \<Rightarrow> 'k \<Rightarrow> bool" where
  "Map_has m k = (map_of m k \<noteq> None)"

text \<open>\<open>get\<close> of a missing key is \<open>undefined\<close>, here \<^const>\<open>None\<close>.\<close>

definition Map_get :: "('k, 'v) js_map \<Rightarrow> 'k \<Rightarrow> 'v option" where
  "Map_get m k = map_of m k"

text \<open>
  \<open>objects.equals\<close> is deep structural equality and \<open>objects.clone\<close> a deep copy. The
  exclusion configs are immutable values here, so the first is equality of values and
  the second returns its argument.
\<close>

definition objects_equals :: "'a \<Rightarrow> 'a \<Rightarrow> bool" where
  "objects_equals a b = (a = b)"

definition objects_clone :: "'a \<Rightarrow> 'a" where
  "objects_clone a = a"

text \<open>
  A compiled matcher applied to a path alone returns the matching pattern or \<open>null\<close>
  (\<^const>\<open>None\<close>). \<open>!!r\<close> is false for \<open>null\<close> and for the empty string.
\<close>

definition truthy :: "string option \<Rightarrow> bool" where
  "truthy r = (case r of None \<Rightarrow> False | Some s \<Rightarrow> s \<noteq> [])"

datatype js_error = TypeError

section \<open>The collaborators of \<open>ResourceGlobMatcher\<close>\<close>

text \<open>
  \<open>URI\<close>, \<open>paths\<close> and \<open>glob.parse\<close> are library code outside the two files; they
  are parameters of the model. \<open>'u\<close> is the type of URIs, \<open>'e\<close> the type of exclusion
  configs (\<open>IExpression\<close>). \<open>uri_scheme\<close>, \<open>paths_basename\<close> and \<open>paths_extname\<close>
  are used by \<open>ResourceContextKey\<close> only.

  \<open>glob.parse\<close> has two parameters. \<open>glob_parse e\<close> is what the function returned for
  the config \<open>e\<close> computes. \<open>glob_ref n e\<close> is the identity of the function object
  that the call returns when it is the \<open>n\<close>-th call of \<open>parse\<close> the matcher makes:
  \<open>parse\<close> may build a new object or hand back one that it caches or shares, and
  nothing is assumed about which.
\<close>

record ('u, 'e) platform =
  uri_toString :: "'u \<Rightarrow> string"
  uri_parse :: "string \<Rightarrow> 'u"
  uri_fsPath :: "'u \<Rightarrow> string"
  uri_scheme :: "'u \<Rightarrow> string"
  paths_basename :: "string \<Rightarrow> string"
  paths_extname :: "string \<Rightarrow> string"
  paths_relative :: "string \<Rightarrow> string \<Rightarrow> string"
  paths_normalize :: "string \<Rightarrow> string"
  glob_parse :: "'e \<Rightarrow> string \<Rightarrow> string option"
  glob_ref :: "nat \<Rightarrow> 'e \<Rightarrow> nat"

record 'u workspace_folder =
  uri :: 'u

text \<open>
  What the workspace service and the glob provider answer at one moment:
  \<open>contextService.getWorkspace().folders\<close>, \<open>contextService.getWorkspaceFolder\<close>
  and \<open>globFn\<close> (called with a folder's URI, or with no argument: \<^const>\<open>None\<close>).
  Each call of an operation receives the world as it is at that moment.
\<close>

record ('u, 'e) world =
  folders :: "'u workspace_folder list"
  getWorkspaceFolder :: "'u \<Rightarrow> 'u workspace_folder option"
  globFn :: "'u option \<Rightarrow> 'e"

section \<open>The state of \<open>ResourceGlobMatcher\<close>\<close>

text \<open>
  The keys of both maps are strings or \<open>NO_ROOT\<close>, which the source declares as
  \<open>null\<close>: a key is a \<open>string option\<close> with \<^const>\<open>None\<close> for \<open>null\<close>.
\<close>

type_synonym root_key = "string option"

definition NO_ROOT :: root_key where
  "NO_ROOT = None"

text \<open>
  A compiled matcher is a function object: \<open>ref\<close> is the identity of the object,
  \<open>run\<close> what it computes.
\<close>

record parsed_expression =
  ref :: nat
  run :: "string \<Rightarrow> string option"

datatype disposable = ExpressionChangeEmitter | ConfigurationListener | WorkspaceFoldersListener

text \<open>
  \<open>fireCount\<close> counts the calls of \<open>_onExpressionChange.fire()\<close>, \<open>nextRef\<close> counts the
  calls of \<open>parse\<close> made so far (it is the number of the next call), and \<open>live\<close> lists
  the handles that have been created and not yet disposed.
\<close>

record 'e matcher =
  mapRootToParsedExpression :: "(root_key, parsed_expression) js_map"
  mapRootToExpressionConfig :: "(root_key, 'e) js_map"
  toUnbind :: "disposable list"
  fireCount :: nat
  nextRef :: nat
  live :: "disposable list"

section \<open>\<open>updateExcludes\<close>\<close>

text \<open>
  The test-and-replace that the source writes out twice, once in the loop over the
  folders with \<open>folder.uri.toString()\<close> as key and once for \<open>NO_ROOT\<close>. The first
  component of the pair is the local variable \<open>changed\<close>.
\<close>

definition setExcludes ::
  "('u, 'e) platform \<Rightarrow> root_key \<Rightarrow> 'e \<Rightarrow> bool \<times> 'e matcher \<Rightarrow> bool \<times> 'e matcher" where
  "setExcludes pf key excludes cs =
     (let st = snd cs in
      if \<not> Map_has (mapRootToExpressionConfig st) key
         \<or> \<not> objects_equals (Map_get (mapRootToExpressionConfig st) key) (Some excludes)
      then (True,
            st\<lparr>mapRootToParsedExpression :=
                  AList.update key
                    \<lparr>ref = glob_ref pf (nextRef st) excludes, run = glob_parse pf excludes\<rparr>
                    (mapRootToParsedExpression st),
               mapRootToExpressionConfig :=
                  AList.update key (objects_clone excludes) (mapRootToExpressionConfig st),
               nextRef := Suc (nextRef st)\<rparr>)
      else cs)"

text \<open>Add excludes per workspaces that got added: the body of the first \<open>forEach\<close>.\<close>

definition addFolder ::
  "('u, 'e) platform \<Rightarrow> ('u, 'e) world \<Rightarrow> 'u workspace_folder \<Rightarrow> bool \<times> 'e matcher
     \<Rightarrow> bool \<times> 'e matcher" where
  "addFolder pf w folder cs =
     (let rootExcludes = globFn w (Some (uri folder))
      in setExcludes pf (Some (uri_toString pf (uri folder))) rootExcludes cs)"

definition addFolders ::
  "('u, 'e) platform \<Rightarrow> ('u, 'e) world \<Rightarrow> bool \<times> 'e matcher \<Rightarrow> bool \<times> 'e matcher" where
  "addFolders pf w cs = fold (addFolder pf w) (folders w) cs"

text \<open>
  Remove excludes per workspace no longer present: the body of the second \<open>forEach\<close>.
  The body deletes no key but the one it is visiting, so visiting the keys that
  \<open>mapRootToExpressionConfig\<close> holds when the loop starts is what \<open>Map.forEach\<close> does.
\<close>

definition removeRoot ::
  "('u, 'e) platform \<Rightarrow> ('u, 'e) world \<Rightarrow> root_key \<Rightarrow> bool \<times> 'e matcher
     \<Rightarrow> bool \<times> 'e matcher" where
  "removeRoot pf w root cs =
     (case root of
        None \<Rightarrow> cs
      | Some r \<Rightarrow>
          (if getWorkspaceFolder w (uri_parse pf r) = None
           then (True,
                 (snd cs)\<lparr>mapRootToParsedExpression :=
                             AList.delete root (mapRootToParsedExpression (snd cs)),
                          mapRootToExpressionConfig :=
                             AList.delete root (mapRootToExpressionConfig (snd cs))\<rparr>)
           else cs))"

definition removeRoots ::
  "('u, 'e) platform \<Rightarrow> ('u, 'e) world \<Rightarrow> bool \<times> 'e matcher \<Rightarrow> bool \<times> 'e matcher" where
  "removeRoots pf w cs =
     fold (removeRoot pf w) (map fst (mapRootToExpressionConfig (snd cs))) cs"

text \<open>Always set for resources outside root as well.\<close>

definition setGlobal ::
  "('u, 'e) platform \<Rightarrow> ('u, 'e) world \<Rightarrow> bool \<times> 'e matcher \<Rightarrow> bool \<times> 'e matcher" where
  "setGlobal pf w cs =
     (let globalExcludes = globFn w None
      in setExcludes pf NO_ROOT globalExcludes cs)"

text \<open>The three steps together: the value of \<open>changed\<close> and the state before the last \<open>if\<close>.\<close>

definition syncSteps ::
  "('u, 'e) platform \<Rightarrow> ('u, 'e) world \<Rightarrow> 'e matcher \<Rightarrow> bool \<times> 'e matcher" where
  "syncSteps pf w st = setGlobal pf w (removeRoots pf w (addFolders pf w (False, st)))"

definition fire :: "'e matcher \<Rightarrow> 'e matcher" where
  "fire st = st\<lparr>fireCount := Suc (fireCount st)\<rparr>"

definition updateExcludes ::
  "('u, 'e) platform \<Rightarrow> ('u, 'e) world \<Rightarrow> bool \<Rightarrow> 'e matcher \<Rightarrow> 'e matcher" where
  "updateExcludes pf w fromEvent st =
     (let cs = syncSteps pf w st;
          changed = fst cs
      in if fromEvent \<and> changed then fire (snd cs) else snd cs)"

section \<open>Construction, listeners and disposal\<close>

text \<open>Modelled from the spec: the event and lifecycle framework (\<open>Emitter\<close>, the
  subscriptions of the services' \<open>onDidChange...\<close> events and \<open>dispose\<close> of
  \<open>vs/base/common/lifecycle\<close>) is not among the source files. Creating an emitter or
  subscribing a listener yields a handle that is live until it is disposed; the source
  pushes each handle on \<open>toUnbind\<close>.\<close>

definition subscribe :: "disposable \<Rightarrow> 'e matcher \<Rightarrow> 'e matcher" where
  "subscribe h st = st\<lparr>toUnbind := toUnbind st @ [h], live := live st @ [h]\<rparr>"

definition registerListeners :: "'e matcher \<Rightarrow> 'e matcher" where
  "registerListeners st = subscribe WorkspaceFoldersListener (subscribe ConfigurationListener st)"

definition new_matcher :: "'e matcher" where
  "new_matcher =
     \<lparr>mapRootToParsedExpression = [], mapRootToExpressionConfig = [], toUnbind = [],
      fireCount = 0, nextRef = 0, live = []\<rparr>"

definition construct :: "('u, 'e) platform \<Rightarrow> ('u, 'e) world \<Rightarrow> 'e matcher" where
  "construct pf w =
     registerListeners (updateExcludes pf w False (subscribe ExpressionChangeEmitter new_matcher))"

text \<open>Modelled from the spec: \<open>dispose\<close> of \<open>vs/base/common/lifecycle\<close>, which is not among
  the source files, releases every handle of the array it is given (the change-event
  emitter and both subscriptions) and returns the empty array, which the source stores
  in \<open>toUnbind\<close>.\<close>

definition dispose :: "'e matcher \<Rightarrow> 'e matcher" where
  "dispose st =
     st\<lparr>live := filter (\<lambda>h. h \<notin> set (toUnbind st)) (live st), toUnbind := []\<rparr>"

text \<open>
  The two listeners of \<open>registerListeners\<close>: the first runs \<open>updateExcludes(true)\<close>
  when \<open>shouldUpdate\<close> accepts the event, the second always. \<open>'c\<close> is the type of
  configuration-change events.
\<close>

datatype 'c event = DidChangeConfiguration 'c | DidChangeWorkspaceFolders

definition onDidChangeConfiguration ::
  "('u, 'e) platform \<Rightarrow> ('c \<Rightarrow> bool) \<Rightarrow> ('u, 'e) world \<Rightarrow> 'c \<Rightarrow> 'e matcher \<Rightarrow> 'e matcher" where
  "onDidChangeConfiguration pf shouldUpdate w e st =
     (if shouldUpdate e then updateExcludes pf w True st else st)"

definition onDidChangeWorkspaceFolders ::
  "('u, 'e) platform \<Rightarrow> ('u, 'e) world \<Rightarrow> 'e matcher \<Rightarrow> 'e matcher" where
  "onDidChangeWorkspaceFolders pf w st = updateExcludes pf w True st"

text \<open>Modelled from the spec: the configuration service and the workspace service, which
  are not among the source files, call a subscribed listener when their event fires, and
  only while the subscription is live: after disposal no further synchronization
  occurs.\<close>

fun deliver ::
  "('u, 'e) platform \<Rightarrow> ('c \<Rightarrow> bool) \<Rightarrow> ('u, 'e) world \<Rightarrow> 'c event \<Rightarrow> 'e matcher \<Rightarrow> 'e matcher" where
  "deliver pf shouldUpdate w (DidChangeConfiguration e) st =
     (if ConfigurationListener \<in> set (live st)
      then onDidChangeConfiguration pf shouldUpdate w e st else st)"
| "deliver pf shouldUpdate w DidChangeWorkspaceFolders st =
     (if WorkspaceFoldersListener \<in> set (live st)
      then onDidChangeWorkspaceFolders pf w st else st)"

text \<open>The states a matcher can be in: constructed, then any events and disposals.\<close>

inductive_set reachable :: "('u, 'e) platform \<Rightarrow> ('c \<Rightarrow> bool) \<Rightarrow> 'e matcher set"
  for pf :: "('u, 'e) platform" and shouldUpdate :: "'c \<Rightarrow> bool" where
  constructed: "construct pf w \<in> reachable pf shouldUpdate"
| delivered: "st \<in> reachable pf shouldUpdate \<Longrightarrow>
     deliver pf shouldUpdate w ev st \<in> reachable pf shouldUpdate"
| disposed: "st \<in> reachable pf shouldUpdate \<Longrightarrow> dispose st \<in> reachable pf shouldUpdate"

section \<open>\<open>matches\<close>\<close>

text \<open>
  Calling \<open>expressionForRoot\<close> when it is \<open>undefined\<close> raises a \<open>TypeError\<close>; the
  argument is computed first and computing it raises nothing.
\<close>

definition matches ::
  "('u, 'e) platform \<Rightarrow> ('u, 'e) world \<Rightarrow> 'e matcher \<Rightarrow> 'u \<Rightarrow> js_error + bool" where
  "matches pf w st resource =
     (let folder = getWorkspaceFolder w resource;
          expressionForRoot =
            (case folder of
               Some f \<Rightarrow>
                 if Map_has (mapRootToParsedExpression st) (Some (uri_toString pf (uri f)))
                 then Map_get (mapRootToParsedExpression st) (Some (uri_toString pf (uri f)))
                 else Map_get (mapRootToParsedExpression st) NO_ROOT
             | None \<Rightarrow> Map_get (mapRootToParsedExpression st) NO_ROOT);
          resourcePathToMatch =
            (case folder of
               Some f \<Rightarrow>
                 paths_normalize pf (paths_relative pf (uri_fsPath pf (uri f)) (uri_fsPath pf resource))
             | None \<Rightarrow> uri_fsPath pf resource)
      in case expressionForRoot of
           None \<Rightarrow> Inl TypeError
         | Some p \<Rightarrow> Inr (truthy (run p resourcePathToMatch)))"

section \<open>\<open>ResourceContextKey\<close>\<close>

text \<open>Modelled from the spec: the context-key service (\<open>IContextKey\<close>, \<open>RawContextKey\<close>) is
  a collaborator outside the source files. A bound key holds a value or nothing
  (\<open>undefined\<close>, \<^const>\<open>None\<close>); \<open>set\<close> stores a value; \<open>reset\<close> puts back the default
  the key was declared with, which is \<open>undefined\<close> for all five keys of
  \<open>ResourceContextKey\<close>; \<open>get\<close> reads the value. \<open>resets\<close> counts the calls of \<open>reset\<close>.
\<close>

record 'a context_key =
  stored :: "'a option"
  resets :: nat

definition key_set :: "'a option \<Rightarrow> 'a context_key \<Rightarrow> 'a context_key" where
  "key_set v k = k\<lparr>stored := v\<rparr>"

definition key_reset :: "'a context_key \<Rightarrow> 'a context_key" where
  "key_reset k = k\<lparr>stored := None, resets := Suc (resets k)\<rparr>"

definition key_get :: "'a context_key \<Rightarrow> 'a option" where
  "key_get k = stored k"

record 'u resource_context_key =
  resourceKey :: "'u context_key"
  schemeKey :: "string context_key"
  filenameKey :: "string context_key"
  langIdKey :: "string context_key"
  extensionKey :: "string context_key"

text \<open>
  \<open>set(value)\<close>. The argument is a URI or \<open>null\<close> (\<^const>\<open>None\<close>); \<open>value && e\<close> is
  \<open>value\<close> itself when it is \<open>null\<close> and \<open>e\<close> otherwise.
  \<open>getModeIdByFilenameOrFirstLine\<close> of the mode service is a parameter.
\<close>

definition rck_set ::
  "('u, 'e) platform \<Rightarrow> (string \<Rightarrow> string option) \<Rightarrow> 'u option \<Rightarrow> 'u resource_context_key
     \<Rightarrow> 'u resource_context_key" where
  "rck_set pf getModeIdByFilenameOrFirstLine val k =
     (let k1 = k\<lparr>resourceKey := key_set val (resourceKey k)\<rparr>;
          k2 = k1\<lparr>schemeKey :=
                 key_set (case val of None \<Rightarrow> None | Some u \<Rightarrow> Some (uri_scheme pf u))
                   (schemeKey k1)\<rparr>;
          k3 = k2\<lparr>filenameKey :=
                 key_set (case val of None \<Rightarrow> None
                          | Some u \<Rightarrow> Some (paths_basename pf (uri_fsPath pf u)))
                   (filenameKey k2)\<rparr>;
          k4 = k3\<lparr>langIdKey :=
                 key_set (case val of None \<Rightarrow> None
                          | Some u \<Rightarrow> getModeIdByFilenameOrFirstLine (uri_fsPath pf u))
                   (langIdKey k3)\<rparr>;
          k5 = k4\<lparr>extensionKey :=
                 key_set (case val of None \<Rightarrow> None
                          | Some u \<Rightarrow> Some (paths_extname pf (uri_fsPath pf u)))
                   (extensionKey k4)\<rparr>
      in k5)"

text \<open>\<open>reset()\<close>: the five calls in the order of the source.\<close>

definition rck_reset :: "'u resource_context_key \<Rightarrow> 'u resource_context_key" where
  "rck_reset k =
     (let k1 = k\<lparr>schemeKey := key_reset (schemeKey k)\<rparr>;
          k2 = k1\<lparr>langIdKey := key_reset (langIdKey k1)\<rparr>;
          k3 = k2\<lparr>resourceKey := key_reset (resourceKey k2)\<rparr>;
          k4 = k3\<lparr>langIdKey := key_reset (langIdKey k3)\<rparr>;
          k5 = k4\<lparr>extensionKey := key_reset (extensionKey k4)\<rparr>
      in k5)"

definition rck_get :: "'u resource_context_key \<Rightarrow> 'u option" where
  "rck_get k = key_get (resourceKey k)"

section \<open>Predicates on matcher states\<close>

text \<open>
  The two maps have the same keys in the same order, and every stored compiled matcher
  computes what \<open>parse\<close> of the stored config computes.
\<close>

definition in_sync :: "('u, 'e) platform \<Rightarrow> 'e matcher \<Rightarrow> bool" where
  "in_sync pf st =
     (map fst (mapRootToParsedExpression st) = map fst (mapRootToExpressionConfig st)
      \<and> (\<forall>k c. map_of (mapRootToExpressionConfig st) k = Some c \<longrightarrow>
            (\<exists>p. map_of (mapRootToParsedExpression st) k = Some p \<and> run p = glob_parse pf c)))"

definition stable :: "('u, 'e) platform \<Rightarrow> 'e matcher \<Rightarrow> bool" where
  "stable pf st =
     (in_sync pf st \<and> Map_has (mapRootToExpressionConfig st) NO_ROOT
      \<and> set (live st) \<subseteq> set (toUnbind st)
      \<and> distinct (map fst (mapRootToExpressionConfig st)))"

text \<open>
  How far a pass that started in \<open>st\<close> has moved: it has compiled a new matcher, or
  else it has at most deleted entries, and it has deleted one when \<open>changed\<close> is set.
\<close>

definition settled :: "'e matcher \<Rightarrow> bool \<times> 'e matcher \<Rightarrow> bool" where
  "settled st cs =
     (nextRef st \<le> nextRef (snd cs)
      \<and> distinct (map fst (mapRootToExpressionConfig (snd cs)))
      \<and> (nextRef (snd cs) = nextRef st \<longrightarrow>
            length (mapRootToExpressionConfig (snd cs)) \<le> length (mapRootToExpressionConfig st)
            \<and> (fst cs \<longrightarrow>
                 length (mapRootToExpressionConfig (snd cs))
                   < length (mapRootToExpressionConfig st))))"

definition handles :: "'e matcher \<Rightarrow> disposable list \<times> disposable list \<times> nat" where
  "handles st = (toUnbind st, live st, fireCount st)"

text \<open>Both maps hold for \<open>key\<close> in \<open>t\<close> what they hold in \<open>st\<close>.\<close>

definition same_at :: "root_key \<Rightarrow> 'e matcher \<Rightarrow> 'e matcher \<Rightarrow> bool" where
  "same_at key st t =
     (Map_get (mapRootToExpressionConfig t) key = Map_get (mapRootToExpressionConfig st) key
      \<and> Map_get (mapRootToParsedExpression t) key = Map_get (mapRootToParsedExpression st) key)"

text \<open>
  From \<open>cs\<close> to \<open>cs'\<close> no call of \<open>parse\<close> is forgotten and \<open>changed\<close>, once set, stays
  set.
\<close>

definition advanced :: "bool \<times> 'e matcher \<Rightarrow> bool \<times> 'e matcher \<Rightarrow> bool" where
  "advanced cs cs' = (nextRef (snd cs) \<le> nextRef (snd cs') \<and> (fst cs \<longrightarrow> fst cs'))"

text \<open>
  The compiled matcher that \<open>st'\<close> stores under \<open>key\<close> is what \<open>parse\<close> returned for
  \<open>excludes\<close> in one of the calls made between \<open>st\<close> and \<open>st'\<close>.
\<close>

definition compiled_in_pass ::
  "('u, 'e) platform \<Rightarrow> 'e matcher \<Rightarrow> 'e matcher \<Rightarrow> root_key \<Rightarrow> 'e \<Rightarrow> bool" where
  "compiled_in_pass pf st st' key excludes =
     (\<exists>n. nextRef st \<le> n \<and> n < nextRef st'
        \<and> Map_get (mapRootToParsedExpression st') key
            = Some \<lparr>ref = glob_ref pf n excludes, run = glob_parse pf excludes\<rparr>)"

text \<open>
  The test of the second loop: \<open>NO_ROOT\<close> is always kept, a string key is kept when
  \<open>getWorkspaceFolder(URI.parse(root))\<close> finds a folder.
\<close>

definition owned :: "('u, 'e) platform \<Rightarrow> ('u, 'e) world \<Rightarrow> root_key \<Rightarrow> bool" where
  "owned pf w key =
     (case key of None \<Rightarrow> True | Some r \<Rightarrow> getWorkspaceFolder w (uri_parse pf r) \<noteq> None)"

section \<open>Sample collaborators\<close>

text \<open>
  A small platform for evaluating the operations on concrete inputs. A URI is the
  file-system path of a \<open>file\<close> resource, its string form is \<open>file://\<close> followed by the
  path; an exclusion config is the list of its enabled patterns, and a pattern matches
  the paths that start with it; every call of \<open>parse\<close> returns a new object, numbered by
  the call.
\<close>

definition sample_relative :: "string \<Rightarrow> string \<Rightarrow> string" where
  "sample_relative from to =
     (if take (Suc (length from)) to = from @ ''/'' then drop (Suc (length from)) to else to)"

definition sample_basename :: "string \<Rightarrow> string" where
  "sample_basename p = rev (takeWhile (\<lambda>c. c \<noteq> CHR ''/'') (rev p))"

definition sample_extname :: "string \<Rightarrow> string" where
  "sample_extname p =
     (let b = sample_basename p
      in if CHR ''.'' \<in> set b then CHR ''.'' # rev (takeWhile (\<lambda>c. c \<noteq> CHR ''.'') (rev b))
         else [])"

definition sample_parse :: "string list \<Rightarrow> string \<Rightarrow> string option" where
  "sample_parse e path = find (\<lambda>pat. take (length pat) path = pat) e"

definition sample_platform :: "(string, string list) platform" where
  "sample_platform =
     \<lparr>uri_toString = (\<lambda>u. ''file://'' @ u), uri_parse = drop 7, uri_fsPath = (\<lambda>u. u),
      uri_scheme = (\<lambda>u. ''file''), paths_basename = sample_basename,
      paths_extname = sample_extname, paths_relative = sample_relative,
      paths_normalize = (\<lambda>p. p), glob_parse = sample_parse, glob_ref = (\<lambda>n e. n)\<rparr>"

text \<open>Modelled from the spec: \<open>ownerRootOf(resourcePath)\<close> of the workspace service, which is
  not among the source files, resolves a resource to its owning workspace root, if any.
  A root owns its own path and every path below it; of several owning roots the
  innermost one is the owner.
\<close>

definition owns :: "string \<Rightarrow> string \<Rightarrow> bool" where
  "owns root r = (r = root \<or> take (Suc (length root)) r = root @ ''/'')"

text \<open>Modelled from the spec: the owner of a resource, as \<open>ownerRootOf\<close> above.\<close>

definition ownerRootOf :: "string list \<Rightarrow> string \<Rightarrow> string workspace_folder option" where
  "ownerRootOf roots r =
     (case filter (\<lambda>root. owns root r) roots of
        [] \<Rightarrow> None
      | c # cs \<Rightarrow> Some \<lparr>uri = fold (\<lambda>x best. if length best < length x then x else best) cs c\<rparr>)"

definition sample_world ::
  "string list \<Rightarrow> (string option \<Rightarrow> string list) \<Rightarrow> (string, string list) world" where
  "sample_world roots provider =
     \<lparr>folders = map (\<lambda>r. \<lparr>uri = r\<rparr>) roots, getWorkspaceFolder = ownerRootOf roots,
      globFn = provider\<rparr>"

definition sample_provider :: "string option \<Rightarrow> string list" where
  "sample_provider root = (case root of None \<Rightarrow> [''/tmp''] | Some r \<Rightarrow> [''build/''])"

definition other_provider :: "string option \<Rightarrow> string list" where
  "other_provider root = (case root of None \<Rightarrow> [''/var''] | Some r \<Rightarrow> [''out/''])"

text \<open>A matcher constructed in a workspace with the one root \<open>/ws\<close>.\<close>

definition sample_matcher :: "string list matcher" where
  "sample_matcher = construct sample_platform (sample_world [''/ws''] sample_provider)"

text \<open>A matcher constructed in a workspace with the root \<open>/ws\<close> and the root \<open>/ws/sub\<close> inside it.\<close>

definition nested_matcher :: "string list matcher" where
  "nested_matcher =
     construct sample_platform (sample_world [''/ws'', ''/ws/sub''] sample_provider)"

lemmas sync_defs = construct_def registerListeners_def subscribe_def new_matcher_def
  updateExcludes_def syncSteps_def setGlobal_def removeRoots_def removeRoot_def
  addFolders_def addFolder_def setExcludes_def fire_def Map_has_def Map_get_def
  objects_equals_def objects_clone_def NO_ROOT_def
  sample_world_def sample_platform_def sample_provider_def other_provider_def
  ownerRootOf_def owns_def sample_parse_def sample_relative_def Let_def

section \<open>What the steps of a pass preserve\<close>

lemma fold_preserves:
  "I s \<Longrightarrow> (\<And>x t. I t \<Longrightarrow> I (f x t)) \<Longrightarrow> I (fold f xs s)"
  by (induction xs arbitrary: s) auto

text \<open>
  A property of the pair of \<open>changed\<close> and the state that holds at the start of a pass
  and is kept by every loop body and by the \<open>NO_ROOT\<close> step holds at its end.
\<close>

lemma syncSteps_rule:
  assumes start: "I (False, st)"
    and add: "\<And>f cs. f \<in> set (folders w) \<Longrightarrow> I cs \<Longrightarrow> I (addFolder pf w f cs)"
    and rem: "\<And>cs. I cs \<Longrightarrow> I (removeRoots pf w cs)"
    and glob: "\<And>cs. I cs \<Longrightarrow> I (setGlobal pf w cs)"
  shows "I (syncSteps pf w st)"
proof -
  have "I (addFolders pf w (False, st))"
    unfolding addFolders_def
    by (rule fold_invariant [where Q = "\<lambda>f. f \<in> set (folders w)" and P = I])
       (simp_all add: start add)
  then show ?thesis
    by (simp add: syncSteps_def rem glob)
qed

lemma syncSteps_preserves:
  assumes start: "I (False, st)"
    and setE: "\<And>key excludes cs. I cs \<Longrightarrow> I (setExcludes pf key excludes cs)"
    and remR: "\<And>root cs. I cs \<Longrightarrow> I (removeRoot pf w root cs)"
  shows "I (syncSteps pf w st)"
proof (rule syncSteps_rule [where I = I])
  show "I (False, st)" by (rule start)
next
  fix f cs assume "I cs"
  then show "I (addFolder pf w f cs)"
    by (simp add: addFolder_def Let_def setE)
next
  fix cs assume "I cs"
  then show "I (removeRoots pf w cs)"
    unfolding removeRoots_def
    by (rule fold_preserves [where I = I]) (simp add: remR)
next
  fix cs assume "I cs"
  then show "I (setGlobal pf w cs)"
    by (simp add: setGlobal_def Let_def setE)
qed

lemma addFolder_setExcludes:
  "addFolder pf w folder cs
     = setExcludes pf (Some (uri_toString pf (uri folder))) (globFn w (Some (uri folder))) cs"
  by (simp add: addFolder_def Let_def)

lemma setGlobal_setExcludes:
  "setGlobal pf w cs = setExcludes pf NO_ROOT (globFn w None) cs"
  by (simp add: setGlobal_def Let_def)

lemma maps_updateExcludes:
  "mapRootToExpressionConfig (updateExcludes pf w b st)
     = mapRootToExpressionConfig (snd (syncSteps pf w st))"
  "mapRootToParsedExpression (updateExcludes pf w b st)
     = mapRootToParsedExpression (snd (syncSteps pf w st))"
  by (simp_all add: updateExcludes_def Let_def fire_def)

subsection \<open>The two maps stay in step\<close>

lemma in_sync_setExcludes:
  "in_sync pf (snd cs) \<Longrightarrow> in_sync pf (snd (setExcludes pf key excludes cs))"
  by (auto simp: in_sync_def setExcludes_def Let_def update_keys update_conv' objects_clone_def)

lemma in_sync_removeRoot:
  "in_sync pf (snd cs) \<Longrightarrow> in_sync pf (snd (removeRoot pf w root cs))"
  by (auto simp: in_sync_def removeRoot_def delete_keys delete_conv' split: option.splits)

lemma in_sync_syncSteps: "in_sync pf st \<Longrightarrow> in_sync pf (snd (syncSteps pf w st))"
  by (rule syncSteps_preserves [where I = "\<lambda>cs. in_sync pf (snd cs)"])
     (simp_all add: in_sync_setExcludes in_sync_removeRoot)

lemma in_sync_updateExcludes: "in_sync pf st \<Longrightarrow> in_sync pf (updateExcludes pf w b st)"
  using in_sync_syncSteps [of pf st w]
  by (auto simp: updateExcludes_def Let_def fire_def in_sync_def)

subsection \<open>The keys of a map are distinct\<close>

lemma distinct_updateExcludes:
  assumes "distinct (map fst (mapRootToExpressionConfig st))"
  shows "distinct (map fst (mapRootToExpressionConfig (updateExcludes pf w b st)))"
proof -
  from assms have "distinct (map fst (mapRootToExpressionConfig (snd (syncSteps pf w st))))"
    by (intro syncSteps_preserves
          [where I = "\<lambda>cs. distinct (map fst (mapRootToExpressionConfig (snd cs)))"])
       (auto simp: setExcludes_def removeRoot_def Let_def distinct_update distinct_delete
          split: option.splits)
  then show ?thesis
    by (simp add: maps_updateExcludes)
qed

subsection \<open>The handles and the counter of notifications\<close>

lemma handles_syncSteps: "handles (snd (syncSteps pf w st)) = handles st"
  by (rule syncSteps_preserves [where I = "\<lambda>cs. handles (snd cs) = handles st"])
     (auto simp: handles_def setExcludes_def removeRoot_def Let_def split: option.splits)

lemma handles_updateExcludes:
  "toUnbind (updateExcludes pf w b st) = toUnbind st"
  "live (updateExcludes pf w b st) = live st"
  using handles_syncSteps [of pf w st]
  by (auto simp: updateExcludes_def Let_def fire_def handles_def)

lemma fireCount_syncSteps: "fireCount (snd (syncSteps pf w st)) = fireCount st"
  using handles_syncSteps [of pf w st] by (simp add: handles_def)

subsection \<open>\<open>NO_ROOT\<close> is stored after every pass\<close>

lemma setExcludes_has:
  "Map_has (mapRootToExpressionConfig (snd (setExcludes pf key excludes cs))) key"
  by (auto simp: setExcludes_def Let_def Map_has_def update_conv')

lemma NO_ROOT_syncSteps:
  "Map_has (mapRootToExpressionConfig (snd (syncSteps pf w st))) NO_ROOT"
  by (simp add: syncSteps_def setGlobal_def Let_def setExcludes_has)

lemma NO_ROOT_updateExcludes:
  "Map_has (mapRootToExpressionConfig (updateExcludes pf w b st)) NO_ROOT"
  using NO_ROOT_syncSteps [of pf w st]
  by (auto simp: updateExcludes_def Let_def fire_def)

subsection \<open>Reachable states\<close>

lemma stable_updateExcludes: "stable pf st \<Longrightarrow> stable pf (updateExcludes pf w b st)"
  by (simp add: stable_def in_sync_updateExcludes NO_ROOT_updateExcludes handles_updateExcludes
      distinct_updateExcludes)

lemma stable_construct: "stable pf (construct pf w)"
proof -
  let ?s0 = "subscribe ExpressionChangeEmitter (new_matcher :: 'b matcher)"
  have "in_sync pf ?s0"
    by (simp add: in_sync_def subscribe_def new_matcher_def)
  then have "in_sync pf (updateExcludes pf w False ?s0)"
    by (rule in_sync_updateExcludes)
  moreover have "set (live ?s0) \<subseteq> set (toUnbind ?s0)"
    by (simp add: subscribe_def new_matcher_def)
  moreover have "distinct (map fst (mapRootToExpressionConfig ?s0))"
    by (simp add: subscribe_def new_matcher_def)
  then have "distinct (map fst (mapRootToExpressionConfig (updateExcludes pf w False ?s0)))"
    by (rule distinct_updateExcludes)
  ultimately show ?thesis
    by (auto simp: stable_def construct_def registerListeners_def subscribe_def in_sync_def
        NO_ROOT_updateExcludes handles_updateExcludes)
qed

lemma stable_deliver: "stable pf st \<Longrightarrow> stable pf (deliver pf su w ev st)"
  by (cases ev)
     (simp_all add: onDidChangeConfiguration_def onDidChangeWorkspaceFolders_def
        stable_updateExcludes)

lemma stable_dispose: "stable pf st \<Longrightarrow> stable pf (dispose st)"
  by (auto simp: stable_def dispose_def in_sync_def)

lemma reachable_stable: "st \<in> reachable pf su \<Longrightarrow> stable pf st"
  by (induction rule: reachable.induct)
     (simp_all add: stable_construct stable_deliver stable_dispose)

lemma NO_ROOT_parsed:
  assumes "st \<in> reachable pf su"
  shows "\<exists>p. Map_get (mapRootToParsedExpression st) NO_ROOT = Some p"
proof -
  from assms have "stable pf st" by (rule reachable_stable)
  then obtain c where c: "map_of (mapRootToExpressionConfig st) NO_ROOT = Some c"
    and "in_sync pf st"
    by (auto simp: stable_def Map_has_def)
  then have "\<exists>p. map_of (mapRootToParsedExpression st) NO_ROOT = Some p \<and> run p = glob_parse pf c"
    unfolding in_sync_def by blast
  then show ?thesis
    by (auto simp: Map_get_def)
qed

lemma matches_total:
  assumes "st \<in> reachable pf su"
  shows "\<exists>b. matches pf w st resource = Inr b"
  using NO_ROOT_parsed [OF assms]
  by (auto simp: matches_def Let_def Map_has_def Map_get_def split: option.splits)

lemma live_dispose:
  assumes "st \<in> reachable pf su"
  shows "live (dispose st) = []"
proof -
  from assms have "stable pf st" by (rule reachable_stable)
  then show ?thesis
    by (auto simp: stable_def dispose_def filter_empty_conv)
qed

lemma deliver_not_live: "live st = [] \<Longrightarrow> deliver pf su w ev st = st"
  by (cases ev) simp_all

subsection \<open>One key through a pass\<close>

lemma same_at_refl: "same_at key st st"
  by (simp add: same_at_def)

lemma same_at_trans: "same_at key st t \<Longrightarrow> same_at key t u \<Longrightarrow> same_at key st u"
  by (simp add: same_at_def)

lemma setExcludes_same:
  "Map_get (mapRootToExpressionConfig (snd cs)) key = Some excludes \<Longrightarrow>
   setExcludes pf key excludes cs = cs"
  by (simp add: setExcludes_def Let_def Map_has_def Map_get_def objects_equals_def)

lemma setExcludes_other:
  "key' \<noteq> key \<Longrightarrow> same_at key' (snd cs) (snd (setExcludes pf key excludes cs))"
  by (simp add: same_at_def setExcludes_def Let_def Map_get_def update_conv')

lemma setExcludes_differs:
  assumes "Map_get (mapRootToExpressionConfig (snd cs)) key \<noteq> Some excludes"
  shows "setExcludes pf key excludes cs =
    (True,
     (snd cs)\<lparr>mapRootToParsedExpression :=
                AList.update key
                  \<lparr>ref = glob_ref pf (nextRef (snd cs)) excludes, run = glob_parse pf excludes\<rparr>
                  (mapRootToParsedExpression (snd cs)),
              mapRootToExpressionConfig :=
                AList.update key excludes (mapRootToExpressionConfig (snd cs)),
              nextRef := Suc (nextRef (snd cs))\<rparr>)"
  using assms
  by (auto simp: setExcludes_def Let_def Map_has_def Map_get_def objects_equals_def
      objects_clone_def)

lemma removeRoot_other:
  "key \<noteq> root \<Longrightarrow> same_at key (snd cs) (snd (removeRoot pf w root cs))"
  by (auto simp: same_at_def removeRoot_def Map_get_def delete_conv' split: option.splits)

lemma removeRoot_owned: "owned pf w root \<Longrightarrow> removeRoot pf w root cs = cs"
  by (auto simp: owned_def removeRoot_def split: option.splits)

lemma removeRoots_keeps:
  fixes cs :: "bool \<times> 'e matcher"
  assumes "owned pf w key"
  shows "same_at key (snd cs) (snd (removeRoots pf w cs))"
  unfolding removeRoots_def
proof (rule fold_preserves [where I = "\<lambda>t. same_at key (snd cs) (snd t)"])
  show "same_at key (snd cs) (snd cs)"
    by (rule same_at_refl)
next
  fix root and t :: "bool \<times> 'e matcher"
  assume t: "same_at key (snd cs) (snd t)"
  have "same_at key (snd t) (snd (removeRoot pf w root t))"
  proof (cases "key = root")
    case True
    with assms have "removeRoot pf w root t = t"
      by (simp add: removeRoot_owned)
    then show ?thesis by (simp add: same_at_refl)
  next
    case False
    then show ?thesis by (rule removeRoot_other)
  qed
  with t show "same_at key (snd cs) (snd (removeRoot pf w root t))"
    by (rule same_at_trans)
qed

text \<open>The second loop never touches the entry of \<open>NO_ROOT\<close>.\<close>

lemma NO_ROOT_kept: "same_at NO_ROOT (snd cs) (snd (removeRoots pf w cs))"
  by (rule removeRoots_keeps) (simp add: owned_def NO_ROOT_def)

lemma removeRoots_all_owned:
  assumes "\<forall>key \<in> set (map fst (mapRootToExpressionConfig (snd cs))). owned pf w key"
  shows "removeRoots pf w cs = cs"
proof -
  have "fold (removeRoot pf w) ks cs = cs" if "\<forall>key \<in> set ks. owned pf w key" for ks
    using that by (induction ks) (simp_all add: removeRoot_owned)
  with assms show ?thesis
    by (simp add: removeRoots_def)
qed

lemma pass_keeps_root:
  fixes st :: "'e matcher"
  assumes folders_same: "\<And>g. g \<in> set (folders w) \<Longrightarrow> Some (uri_toString pf (uri g)) = key \<Longrightarrow>
      Map_get (mapRootToExpressionConfig st) key = Some (globFn w (Some (uri g)))"
    and global_same: "key = NO_ROOT \<Longrightarrow>
      Map_get (mapRootToExpressionConfig st) key = Some (globFn w None)"
    and own: "owned pf w key"
  shows "same_at key st (snd (syncSteps pf w st))"
proof (rule syncSteps_rule [where I = "\<lambda>t. same_at key st (snd t)"])
  show "same_at key st (snd (False, st))"
    by (simp add: same_at_refl)
next
  fix g and t :: "bool \<times> 'e matcher"
  assume g: "g \<in> set (folders w)" and t: "same_at key st (snd t)"
  have "same_at key (snd t) (snd (addFolder pf w g t))"
  proof (cases "Some (uri_toString pf (uri g)) = key")
    case True
    with folders_same [OF g] t
    have "Map_get (mapRootToExpressionConfig (snd t)) (Some (uri_toString pf (uri g)))
        = Some (globFn w (Some (uri g)))"
      by (simp add: same_at_def)
    then have "addFolder pf w g t = t"
      by (simp add: addFolder_setExcludes setExcludes_same)
    then show ?thesis by (simp add: same_at_refl)
  next
    case False
    then have "key \<noteq> Some (uri_toString pf (uri g))" by blast
    then show ?thesis
      by (simp add: addFolder_setExcludes setExcludes_other)
  qed
  with t show "same_at key st (snd (addFolder pf w g t))"
    by (rule same_at_trans)
next
  fix t :: "bool \<times> 'e matcher"
  assume t: "same_at key st (snd t)"
  from own have "same_at key (snd t) (snd (removeRoots pf w t))"
    by (rule removeRoots_keeps)
  with t show "same_at key st (snd (removeRoots pf w t))"
    by (rule same_at_trans)
next
  fix t :: "bool \<times> 'e matcher"
  assume t: "same_at key st (snd t)"
  have "same_at key (snd t) (snd (setGlobal pf w t))"
  proof (cases "key = NO_ROOT")
    case True
    with global_same t
    have "Map_get (mapRootToExpressionConfig (snd t)) NO_ROOT = Some (globFn w None)"
      by (simp add: same_at_def)
    then have "setGlobal pf w t = t"
      by (simp add: setGlobal_setExcludes setExcludes_same)
    then show ?thesis by (simp add: same_at_refl)
  next
    case False
    then show ?thesis
      by (simp add: setGlobal_setExcludes setExcludes_other)
  qed
  with t show "same_at key st (snd (setGlobal pf w t))"
    by (rule same_at_trans)
qed

lemma all_same_pass:
  fixes st :: "'e matcher"
  assumes folders_same: "\<forall>g \<in> set (folders w).
      Map_get (mapRootToExpressionConfig st) (Some (uri_toString pf (uri g)))
        = Some (globFn w (Some (uri g)))"
    and global_same: "Map_get (mapRootToExpressionConfig st) NO_ROOT = Some (globFn w None)"
    and all_owned: "\<forall>key \<in> set (map fst (mapRootToExpressionConfig st)). owned pf w key"
  shows "syncSteps pf w st = (False, st)"
proof (rule syncSteps_rule [where I = "\<lambda>t. t = (False, st)"])
  show "(False, st) = (False, st)" by simp
next
  fix g and cs :: "bool \<times> 'e matcher"
  assume "g \<in> set (folders w)" and "cs = (False, st)"
  with folders_same show "addFolder pf w g cs = (False, st)"
    by (simp add: addFolder_setExcludes setExcludes_same)
next
  fix cs :: "bool \<times> 'e matcher"
  assume "cs = (False, st)"
  with all_owned show "removeRoots pf w cs = (False, st)"
    by (simp add: removeRoots_all_owned)
next
  fix cs :: "bool \<times> 'e matcher"
  assume "cs = (False, st)"
  with global_same show "setGlobal pf w cs = (False, st)"
    by (simp add: setGlobal_setExcludes setExcludes_same)
qed

text \<open>A pass that leaves \<open>changed\<close> false has changed nothing.\<close>

lemma unchanged_is_identity:
  "\<not> fst (syncSteps pf w st) \<Longrightarrow> snd (syncSteps pf w st) = st"
proof -
  have "fst (syncSteps pf w st) = False \<longrightarrow> snd (syncSteps pf w st) = st"
    by (rule syncSteps_preserves [where I = "\<lambda>cs. fst cs = False \<longrightarrow> snd cs = st"])
       (auto simp: setExcludes_def removeRoot_def Let_def split: option.splits)
  then show "\<not> fst (syncSteps pf w st) \<Longrightarrow> snd (syncSteps pf w st) = st"
    by simp
qed

subsection \<open>Keys that no folder owns\<close>

lemma fold_removeRoot_unowned:
  fixes cs :: "bool \<times> 'e matcher"
  assumes "getWorkspaceFolder w (uri_parse pf r) = None"
  shows "Map_get (mapRootToExpressionConfig (snd (fold (removeRoot pf w) ks cs))) (Some r)
      = (if Some r \<in> set ks then None
         else Map_get (mapRootToExpressionConfig (snd cs)) (Some r))
    \<and> Map_get (mapRootToParsedExpression (snd (fold (removeRoot pf w) ks cs))) (Some r)
      = (if Some r \<in> set ks then None
         else Map_get (mapRootToParsedExpression (snd cs)) (Some r))"
proof (induction ks arbitrary: cs)
  case Nil
  show ?case by simp
next
  case (Cons k ks)
  show ?case
  proof (cases "k = Some r")
    case True
    with assms have
      "Map_get (mapRootToExpressionConfig (snd (removeRoot pf w k cs))) (Some r) = None"
      "Map_get (mapRootToParsedExpression (snd (removeRoot pf w k cs))) (Some r) = None"
      by (simp_all add: removeRoot_def Map_get_def delete_conv')
    with True Cons.IH [of "removeRoot pf w k cs"] show ?thesis
      by simp
  next
    case False
    then have "same_at (Some r) (snd cs) (snd (removeRoot pf w k cs))"
      by (intro removeRoot_other) simp
    with False Cons.IH [of "removeRoot pf w k cs"] show ?thesis
      by (simp add: same_at_def)
  qed
qed

text \<open>
  After a pass, a string key for which \<open>getWorkspaceFolder(URI.parse(root))\<close> finds no
  folder is in neither map.
\<close>

lemma unowned_root_removed:
  fixes st :: "'e matcher"
  assumes sync: "in_sync pf st"
    and unowned: "getWorkspaceFolder w (uri_parse pf r) = None"
  shows "\<not> Map_has (mapRootToExpressionConfig (updateExcludes pf w b st)) (Some r)
    \<and> \<not> Map_has (mapRootToParsedExpression (updateExcludes pf w b st)) (Some r)"
proof -
  let ?a = "addFolders pf w (False, st)"
  let ?r = "removeRoots pf w ?a"
  have "in_sync pf (snd ?a)"
    unfolding addFolders_def
    by (rule fold_preserves [where I = "\<lambda>cs. in_sync pf (snd cs)"])
       (simp_all add: sync addFolder_setExcludes in_sync_setExcludes)
  then have keys: "map fst (mapRootToParsedExpression (snd ?a))
      = map fst (mapRootToExpressionConfig (snd ?a))"
    by (simp add: in_sync_def)
  have c: "Map_get (mapRootToExpressionConfig (snd ?r)) (Some r) = None"
    using fold_removeRoot_unowned [OF unowned, of "map fst (mapRootToExpressionConfig (snd ?a))" ?a]
    by (auto simp: removeRoots_def Map_get_def map_of_eq_None_iff)
  have "Map_get (mapRootToParsedExpression (snd ?r)) (Some r) = None"
    using fold_removeRoot_unowned [OF unowned, of "map fst (mapRootToExpressionConfig (snd ?a))" ?a]
      keys
    by (auto simp: removeRoots_def Map_get_def map_of_eq_None_iff simp flip: set_map)
  with c have "Map_get (mapRootToExpressionConfig (snd (setGlobal pf w ?r))) (Some r) = None
    \<and> Map_get (mapRootToParsedExpression (snd (setGlobal pf w ?r))) (Some r) = None"
    using setExcludes_other [of "Some r" NO_ROOT ?r pf "globFn w None"]
    by (simp add: setGlobal_setExcludes same_at_def NO_ROOT_def)
  then show ?thesis
    by (simp add: maps_updateExcludes syncSteps_def Map_has_def Map_get_def)
qed

subsection \<open>\<open>changed\<close> and the state\<close>

lemma settled_setExcludes: "settled st cs \<Longrightarrow> settled st (setExcludes pf key excludes cs)"
  by (auto simp: settled_def setExcludes_def Let_def distinct_update)

lemma length_delete_less:
  "k \<in> fst ` set al \<Longrightarrow> length (AList.delete k al) < length al"
proof -
  assume "k \<in> fst ` set al"
  then obtain v where "(k, v) \<in> set al" by auto
  then show ?thesis
    unfolding AList.delete_eq by (rule length_filter_less) simp
qed

lemma keys_delete: "fst ` set (AList.delete k al) = fst ` set al - {k}"
  by (auto simp: AList.delete_eq image_iff)

lemma fold_removeRoot_shrinks:
  fixes cs :: "bool \<times> 'e matcher"
  assumes "distinct ks" and "set ks \<subseteq> fst ` set (mapRootToExpressionConfig (snd cs))"
    and "distinct (map fst (mapRootToExpressionConfig (snd cs)))"
  shows "nextRef (snd (fold (removeRoot pf w) ks cs)) = nextRef (snd cs)
    \<and> distinct (map fst (mapRootToExpressionConfig (snd (fold (removeRoot pf w) ks cs))))
    \<and> length (mapRootToExpressionConfig (snd (fold (removeRoot pf w) ks cs)))
        \<le> length (mapRootToExpressionConfig (snd cs))
    \<and> (fst (fold (removeRoot pf w) ks cs) \<longrightarrow>
          fst cs \<or> length (mapRootToExpressionConfig (snd (fold (removeRoot pf w) ks cs)))
                    < length (mapRootToExpressionConfig (snd cs)))"
  using assms
proof (induction ks arbitrary: cs)
  case Nil
  then show ?case by simp
next
  case (Cons k ks)
  show ?case
  proof (cases "removeRoot pf w k cs = cs")
    case True
    with Cons.IH [of cs] Cons.prems show ?thesis by simp
  next
    case False
    then obtain r where k: "k = Some r"
      and r: "removeRoot pf w k cs =
        (True, (snd cs)\<lparr>mapRootToParsedExpression :=
                          AList.delete k (mapRootToParsedExpression (snd cs)),
                        mapRootToExpressionConfig :=
                          AList.delete k (mapRootToExpressionConfig (snd cs))\<rparr>)"
      by (auto simp: removeRoot_def split: option.splits if_splits)
    let ?c = "removeRoot pf w k cs"
    from Cons.prems have "k \<in> fst ` set (mapRootToExpressionConfig (snd cs))"
      by simp
    then have less: "length (mapRootToExpressionConfig (snd ?c))
        < length (mapRootToExpressionConfig (snd cs))"
      by (simp add: r length_delete_less)
    from Cons.prems have "set ks \<subseteq> fst ` set (mapRootToExpressionConfig (snd ?c))"
      by (auto simp: r keys_delete)
    moreover from Cons.prems have "distinct (map fst (mapRootToExpressionConfig (snd ?c)))"
      by (simp add: r distinct_delete)
    moreover from Cons.prems have "distinct ks" by simp
    ultimately have "nextRef (snd (fold (removeRoot pf w) ks ?c)) = nextRef (snd ?c)
      \<and> distinct (map fst (mapRootToExpressionConfig (snd (fold (removeRoot pf w) ks ?c))))
      \<and> length (mapRootToExpressionConfig (snd (fold (removeRoot pf w) ks ?c)))
          \<le> length (mapRootToExpressionConfig (snd ?c))"
      using Cons.IH [of ?c] by simp
    moreover have "nextRef (snd ?c) = nextRef (snd cs)"
      by (simp add: r)
    ultimately show ?thesis
      using less by simp
  qed
qed

lemma settled_removeRoots:
  fixes cs :: "bool \<times> 'e matcher"
  assumes "settled st cs"
  shows "settled st (removeRoots pf w cs)"
proof -
  from assms have d: "distinct (map fst (mapRootToExpressionConfig (snd cs)))"
    by (simp add: settled_def)
  have "set (map fst (mapRootToExpressionConfig (snd cs)))
      \<subseteq> fst ` set (mapRootToExpressionConfig (snd cs))"
    by simp
  from fold_removeRoot_shrinks [OF d this d, of pf w] assms show ?thesis
    by (auto simp: settled_def removeRoots_def)
qed

text \<open>A pass that sets \<open>changed\<close> has changed the state.\<close>

lemma changed_is_change:
  fixes st :: "'e matcher"
  assumes "distinct (map fst (mapRootToExpressionConfig st))"
    and "fst (syncSteps pf w st)"
  shows "snd (syncSteps pf w st) \<noteq> st"
proof -
  have "settled st (syncSteps pf w st)"
  proof (rule syncSteps_rule [where I = "settled st"])
    show "settled st (False, st)"
      using assms(1) by (simp add: settled_def)
  qed (simp_all add: addFolder_setExcludes setGlobal_setExcludes settled_setExcludes
      settled_removeRoots)
  with assms(2) show ?thesis
    by (auto simp: settled_def)
qed

lemma changed_iff_state_changed:
  assumes "st \<in> reachable pf su"
  shows "fst (syncSteps pf w st) \<longleftrightarrow> snd (syncSteps pf w st) \<noteq> st"
proof -
  from assms have "stable pf st" by (rule reachable_stable)
  then have "distinct (map fst (mapRootToExpressionConfig st))"
    by (simp add: stable_def)
  then show ?thesis
    using changed_is_change [of st pf w] unchanged_is_identity [of pf w st] by blast
qed

subsection \<open>A root whose config has changed\<close>

lemma advanced_refl: "advanced cs cs"
  by (simp add: advanced_def)

lemma advanced_trans: "advanced a b \<Longrightarrow> advanced b c \<Longrightarrow> advanced a c"
  by (auto simp: advanced_def)

lemma advanced_setExcludes: "advanced cs (setExcludes pf key excludes cs)"
  by (simp add: advanced_def setExcludes_def Let_def)

lemma advanced_removeRoot: "advanced cs (removeRoot pf w root cs)"
  by (simp add: advanced_def removeRoot_def split: option.splits)

lemma advanced_fold:
  assumes "\<And>x t. advanced t (f x t)"
  shows "advanced cs (fold f xs cs)"
  by (rule fold_preserves [where I = "advanced cs"])
     (auto intro: advanced_refl advanced_trans assms)

lemma advanced_addFolders: "advanced cs (fold (addFolder pf w) fs cs)"
  by (rule advanced_fold) (simp add: addFolder_setExcludes advanced_setExcludes)

lemma advanced_removeRoots: "advanced cs (removeRoots pf w cs)"
  unfolding removeRoots_def by (rule advanced_fold) (rule advanced_removeRoot)

lemma advanced_setGlobal: "advanced cs (setGlobal pf w cs)"
  by (simp add: setGlobal_setExcludes advanced_setExcludes)

lemma advanced_after_addFolders:
  "advanced (addFolders pf w (False, st)) (syncSteps pf w st)"
  unfolding syncSteps_def
  by (rule advanced_trans [OF advanced_removeRoots advanced_setGlobal])

lemma setExcludes_unchanged:
  "\<not> fst (setExcludes pf key excludes cs) \<Longrightarrow>
   setExcludes pf key excludes cs = cs
   \<and> Map_get (mapRootToExpressionConfig (snd cs)) key = Some excludes"
  by (auto simp: setExcludes_def Let_def Map_has_def Map_get_def objects_equals_def
      split: if_splits)

lemma addFolders_unchanged:
  fixes cs :: "bool \<times> 'e matcher"
  assumes "\<not> fst (fold (addFolder pf w) fs cs)"
  shows "\<forall>f \<in> set fs.
    Map_get (mapRootToExpressionConfig (snd cs)) (Some (uri_toString pf (uri f)))
      = Some (globFn w (Some (uri f)))"
  using assms
proof (induction fs arbitrary: cs)
  case Nil
  show ?case by simp
next
  case (Cons g fs)
  let ?c = "addFolder pf w g cs"
  from Cons.prems have rest: "\<not> fst (fold (addFolder pf w) fs ?c)"
    by simp
  have "advanced ?c (fold (addFolder pf w) fs ?c)"
    by (rule advanced_addFolders)
  with rest have "\<not> fst ?c"
    by (auto simp: advanced_def)
  then have same: "?c = cs"
    and g: "Map_get (mapRootToExpressionConfig (snd cs)) (Some (uri_toString pf (uri g)))
      = Some (globFn w (Some (uri g)))"
    using setExcludes_unchanged
      [of pf "Some (uri_toString pf (uri g))" "globFn w (Some (uri g))" cs]
    by (simp_all add: addFolder_setExcludes)
  from Cons.IH [OF rest] same g show ?case
    by simp
qed

text \<open>A folder whose fetched config is not the stored one makes the pass set \<open>changed\<close>.\<close>

lemma differing_folder_changes:
  fixes st :: "'e matcher"
  assumes "f \<in> set (folders w)"
    and "Map_get (mapRootToExpressionConfig st) (Some (uri_toString pf (uri f)))
      \<noteq> Some (globFn w (Some (uri f)))"
  shows "fst (syncSteps pf w st)"
proof -
  have "fst (addFolders pf w (False, st))"
    using addFolders_unchanged [of pf w "folders w" "(False, st)"] assms
    by (auto simp: addFolders_def)
  with advanced_after_addFolders [of pf w st] show ?thesis
    by (simp add: advanced_def)
qed

lemma addFolders_keeps:
  fixes cs :: "bool \<times> 'e matcher"
  assumes "\<forall>g \<in> set fs. Some (uri_toString pf (uri g)) = key \<longrightarrow>
      Map_get (mapRootToExpressionConfig (snd cs)) key = Some (globFn w (Some (uri g)))"
  shows "same_at key (snd cs) (snd (fold (addFolder pf w) fs cs))"
proof (rule fold_invariant [where Q = "\<lambda>g. g \<in> set fs"
      and P = "\<lambda>t. same_at key (snd cs) (snd t)"])
  show "same_at key (snd cs) (snd cs)" by (rule same_at_refl)
next
  fix g and t :: "bool \<times> 'e matcher"
  assume g: "g \<in> set fs" and t: "same_at key (snd cs) (snd t)"
  have "same_at key (snd t) (snd (addFolder pf w g t))"
  proof (cases "Some (uri_toString pf (uri g)) = key")
    case True
    with assms g t
    have "Map_get (mapRootToExpressionConfig (snd t)) (Some (uri_toString pf (uri g)))
        = Some (globFn w (Some (uri g)))"
      by (auto simp: same_at_def)
    then have "addFolder pf w g t = t"
      by (simp add: addFolder_setExcludes setExcludes_same)
    then show ?thesis by (simp add: same_at_refl)
  next
    case False
    then have "key \<noteq> Some (uri_toString pf (uri g))" by blast
    then show ?thesis
      by (simp add: addFolder_setExcludes setExcludes_other)
  qed
  with t show "same_at key (snd cs) (snd (addFolder pf w g t))"
    by (rule same_at_trans)
qed simp

lemma setExcludes_result:
  fixes cs :: "bool \<times> 'e matcher"
  shows "Map_get (mapRootToExpressionConfig (snd (setExcludes pf key excludes cs))) key
      = Some excludes
    \<and> (Map_get (mapRootToExpressionConfig (snd cs)) key \<noteq> Some excludes \<longrightarrow>
         fst (setExcludes pf key excludes cs)
         \<and> nextRef (snd (setExcludes pf key excludes cs)) = Suc (nextRef (snd cs))
         \<and> Map_get (mapRootToParsedExpression (snd (setExcludes pf key excludes cs))) key
             = Some \<lparr>ref = glob_ref pf (nextRef (snd cs)) excludes,
                     run = glob_parse pf excludes\<rparr>)"
  by (auto simp: setExcludes_def Let_def Map_has_def Map_get_def objects_equals_def
      objects_clone_def update_conv')

lemma addFolders_sets_root:
  fixes cs :: "bool \<times> 'e matcher"
  assumes f: "f \<in> set fs"
    and det: "\<forall>g \<in> set fs. uri_toString pf (uri g) = uri_toString pf (uri f) \<longrightarrow>
      globFn w (Some (uri g)) = globFn w (Some (uri f))"
  shows "Map_get (mapRootToExpressionConfig (snd (fold (addFolder pf w) fs cs)))
        (Some (uri_toString pf (uri f))) = Some (globFn w (Some (uri f)))
    \<and> (Map_get (mapRootToExpressionConfig (snd cs)) (Some (uri_toString pf (uri f)))
        \<noteq> Some (globFn w (Some (uri f))) \<longrightarrow>
         compiled_in_pass pf (snd cs) (snd (fold (addFolder pf w) fs cs))
           (Some (uri_toString pf (uri f))) (globFn w (Some (uri f))))"
proof -
  let ?key = "Some (uri_toString pf (uri f))"
  let ?e = "globFn w (Some (uri f))"
  from f obtain xs g ys where fs: "fs = xs @ g # ys"
    and g: "uri_toString pf (uri g) = uri_toString pf (uri f)"
    and xs: "\<forall>x \<in> set xs. uri_toString pf (uri x) \<noteq> uri_toString pf (uri f)"
    using split_list_first_prop
      [of fs "\<lambda>x. uri_toString pf (uri x) = uri_toString pf (uri f)"]
    by blast
  let ?c1 = "fold (addFolder pf w) xs cs"
  let ?c2 = "addFolder pf w g ?c1"
  let ?c3 = "fold (addFolder pf w) ys ?c2"
  have c3: "fold (addFolder pf w) fs cs = ?c3"
    by (simp add: fs)
  from det g fs have ge: "globFn w (Some (uri g)) = ?e" by simp
  then have c2: "?c2 = setExcludes pf ?key ?e ?c1"
    by (simp add: addFolder_setExcludes g)
  have s1: "same_at ?key (snd cs) (snd ?c1)"
    using xs by (intro addFolders_keeps) auto
  have a1: "advanced cs ?c1" by (rule advanced_addFolders)
  have r2: "Map_get (mapRootToExpressionConfig (snd ?c2)) ?key = Some ?e"
    using setExcludes_result [of pf ?key ?e ?c1] by (simp add: c2)
  have s3: "same_at ?key (snd ?c2) (snd ?c3)"
    using det fs r2 by (intro addFolders_keeps) auto
  have a3: "advanced ?c2 ?c3" by (rule advanced_addFolders)
  from s3 r2 have first: "Map_get (mapRootToExpressionConfig (snd ?c3)) ?key = Some ?e"
    by (simp add: same_at_def)
  have second: "compiled_in_pass pf (snd cs) (snd ?c3) ?key ?e"
    if differs: "Map_get (mapRootToExpressionConfig (snd cs)) ?key \<noteq> Some ?e"
  proof -
    from differs s1 have "Map_get (mapRootToExpressionConfig (snd ?c1)) ?key \<noteq> Some ?e"
      by (simp add: same_at_def)
    with setExcludes_result [of pf ?key ?e ?c1]
    have n: "nextRef (snd ?c2) = Suc (nextRef (snd ?c1))"
      and p: "Map_get (mapRootToParsedExpression (snd ?c2)) ?key
        = Some \<lparr>ref = glob_ref pf (nextRef (snd ?c1)) ?e, run = glob_parse pf ?e\<rparr>"
      by (simp_all add: c2)
    from p s3 have "Map_get (mapRootToParsedExpression (snd ?c3)) ?key
        = Some \<lparr>ref = glob_ref pf (nextRef (snd ?c1)) ?e, run = glob_parse pf ?e\<rparr>"
      by (simp add: same_at_def)
    moreover from a1 have "nextRef (snd cs) \<le> nextRef (snd ?c1)"
      by (simp add: advanced_def)
    moreover from a3 n have "nextRef (snd ?c1) < nextRef (snd ?c3)"
      by (simp add: advanced_def)
    ultimately show ?thesis
      unfolding compiled_in_pass_def by blast
  qed
  from first second show ?thesis
    by (simp add: c3)
qed

lemma compiled_in_pass_later:
  assumes "compiled_in_pass pf st t key excludes"
    and "same_at key t u" and "nextRef t \<le> nextRef u"
  shows "compiled_in_pass pf st u key excludes"
  using assms unfolding compiled_in_pass_def same_at_def
  by (metis less_le_trans)

lemma nextRef_updateExcludes:
  "nextRef (updateExcludes pf w b st) = nextRef (snd (syncSteps pf w st))"
  by (simp add: updateExcludes_def Let_def fire_def)

text \<open>
  After a pass, a current folder whose URI is found by \<open>getWorkspaceFolder\<close> has the
  fetched config stored under its key; when the stored config was another one (or none),
  the stored matcher is what a \<open>parse\<close> call of this pass returned for the fetched config.
\<close>

lemma pass_sets_root:
  fixes st :: "'e matcher"
  assumes f: "f \<in> set (folders w)"
    and det: "\<forall>g \<in> set (folders w). uri_toString pf (uri g) = uri_toString pf (uri f) \<longrightarrow>
      globFn w (Some (uri g)) = globFn w (Some (uri f))"
    and own: "owned pf w (Some (uri_toString pf (uri f)))"
  shows "Map_get (mapRootToExpressionConfig (updateExcludes pf w b st))
        (Some (uri_toString pf (uri f))) = Some (globFn w (Some (uri f)))
    \<and> (Map_get (mapRootToExpressionConfig st) (Some (uri_toString pf (uri f)))
        \<noteq> Some (globFn w (Some (uri f))) \<longrightarrow>
         compiled_in_pass pf st (updateExcludes pf w b st)
           (Some (uri_toString pf (uri f))) (globFn w (Some (uri f))))"
proof -
  let ?key = "Some (uri_toString pf (uri f))"
  let ?e = "globFn w (Some (uri f))"
  let ?a = "addFolders pf w (False, st)"
  let ?r = "removeRoots pf w ?a"
  let ?g = "setGlobal pf w ?r"
  let ?u = "updateExcludes pf w b st"
  have g: "syncSteps pf w st = ?g" by (simp add: syncSteps_def)
  have ar: "same_at ?key (snd ?a) (snd ?r)"
    using own by (rule removeRoots_keeps)
  have rg: "same_at ?key (snd ?r) (snd ?g)"
    by (simp add: setGlobal_setExcludes setExcludes_other NO_ROOT_def)
  have ag: "same_at ?key (snd ?a) (snd ?g)"
    using ar rg by (rule same_at_trans)
  have au: "same_at ?key (snd ?a) ?u"
    using ag by (simp add: same_at_def maps_updateExcludes g)
  have "advanced ?a ?g"
    using advanced_after_addFolders [of pf w st] by (simp add: g)
  then have n: "nextRef (snd ?a) \<le> nextRef ?u"
    by (simp add: advanced_def nextRef_updateExcludes g)
  note a = addFolders_sets_root [OF f det, of "(False, st)", folded addFolders_def]
  from a au have "Map_get (mapRootToExpressionConfig ?u) ?key = Some ?e"
    by (simp add: same_at_def)
  moreover have "compiled_in_pass pf st ?u ?key ?e"
    if "Map_get (mapRootToExpressionConfig st) ?key \<noteq> Some ?e"
  proof -
    from a that have "compiled_in_pass pf st (snd ?a) ?key ?e" by simp
    then show ?thesis using au n by (rule compiled_in_pass_later)
  qed
  ultimately show ?thesis by blast
qed

text \<open>The same for \<open>NO_ROOT\<close>, which needs no folder.\<close>

lemma pass_sets_NO_ROOT:
  fixes st :: "'e matcher"
  shows "Map_get (mapRootToExpressionConfig (updateExcludes pf w b st)) NO_ROOT
      = Some (globFn w None)
    \<and> (Map_get (mapRootToExpressionConfig st) NO_ROOT \<noteq> Some (globFn w None) \<longrightarrow>
         fst (syncSteps pf w st)
         \<and> compiled_in_pass pf st (updateExcludes pf w b st) NO_ROOT (globFn w None))"
proof -
  let ?e = "globFn w None"
  let ?a = "addFolders pf w (False, st)"
  let ?r = "removeRoots pf w ?a"
  let ?g = "setGlobal pf w ?r"
  let ?u = "updateExcludes pf w b st"
  have g: "syncSteps pf w st = ?g" by (simp add: syncSteps_def)
  have ge: "?g = setExcludes pf NO_ROOT ?e ?r" by (rule setGlobal_setExcludes)
  have sa: "same_at NO_ROOT st (snd ?a)"
    using addFolders_keeps [of "folders w" pf NO_ROOT "(False, st)" w]
    by (simp add: addFolders_def NO_ROOT_def)
  have "same_at NO_ROOT (snd ?a) (snd ?r)" by (rule NO_ROOT_kept)
  with sa have sr: "same_at NO_ROOT st (snd ?r)" by (rule same_at_trans)
  have "advanced (False, st) ?a"
    unfolding addFolders_def by (rule advanced_addFolders)
  then have "advanced (False, st) ?r"
    using advanced_removeRoots by (rule advanced_trans)
  then have nr: "nextRef st \<le> nextRef (snd ?r)" by (simp add: advanced_def)
  note res = setExcludes_result [of pf NO_ROOT ?e ?r]
  from res have "Map_get (mapRootToExpressionConfig ?u) NO_ROOT = Some ?e"
    by (simp add: maps_updateExcludes g ge)
  moreover have "fst (syncSteps pf w st) \<and> compiled_in_pass pf st ?u NO_ROOT ?e"
    if "Map_get (mapRootToExpressionConfig st) NO_ROOT \<noteq> Some ?e"
  proof -
    from that sr have "Map_get (mapRootToExpressionConfig (snd ?r)) NO_ROOT \<noteq> Some ?e"
      by (simp add: same_at_def)
    with res have "fst ?g" and "nextRef (snd ?g) = Suc (nextRef (snd ?r))"
      and "Map_get (mapRootToParsedExpression (snd ?g)) NO_ROOT
        = Some \<lparr>ref = glob_ref pf (nextRef (snd ?r)) ?e, run = glob_parse pf ?e\<rparr>"
      by (simp_all add: ge)
    with nr show ?thesis
      unfolding compiled_in_pass_def
      by (auto simp: g maps_updateExcludes nextRef_updateExcludes)
  qed
  ultimately show ?thesis by blast
qed

lemma changed_pass_fires:
  "fst (syncSteps pf w st) \<Longrightarrow>
   fireCount (updateExcludes pf w True st) = Suc (fireCount st)
   \<and> fireCount (updateExcludes pf w False st) = fireCount st"
  by (simp add: updateExcludes_def Let_def fire_def fireCount_syncSteps)

section \<open>The two maps of \<open>ResourceGlobMatcher\<close>\<close>

text \<open>
  C1. In every reachable state of \<open>ResourceGlobMatcher\<close> (after construction and any
  sequence of events and disposals) the stored-config map and the compiled-matcher map
  have the same set of root keys, and for each root key the stored compiled matcher
  computes what freshly compiling the stored config computes. Every operation is one
  step of the model, so a \<open>matches\<close> query sees such a state only.
\<close>

theorem maps_in_sync:
  assumes "st \<in> reachable pf shouldUpdate"
  shows "fst ` set (mapRootToExpressionConfig st) = fst ` set (mapRootToParsedExpression st)
    \<and> (\<forall>key config. Map_get (mapRootToExpressionConfig st) key = Some config \<longrightarrow>
          (\<exists>p. Map_get (mapRootToParsedExpression st) key = Some p
             \<and> run p = glob_parse pf config))"
proof -
  from assms have s: "in_sync pf st"
    using reachable_stable [of st pf shouldUpdate] by (simp add: stable_def)
  then have "map fst (mapRootToParsedExpression st) = map fst (mapRootToExpressionConfig st)"
    by (simp add: in_sync_def)
  then have "fst ` set (mapRootToExpressionConfig st) = fst ` set (mapRootToParsedExpression st)"
    by (metis set_map)
  with s show ?thesis
    by (simp add: in_sync_def Map_get_def)
qed

theorem maps_in_sync_witness:
  "sample_matcher \<in> reachable sample_platform (\<lambda>e::unit. True)
   \<and> fst ` set (mapRootToExpressionConfig sample_matcher)
     = fst ` set (mapRootToParsedExpression sample_matcher)
   \<and> Map_get (mapRootToExpressionConfig sample_matcher) (Some ''file:///ws'') = Some [''build/'']
   \<and> (\<exists>p. Map_get (mapRootToParsedExpression sample_matcher) (Some ''file:///ws'') = Some p
         \<and> run p = glob_parse sample_platform [''build/''])"
proof -
  have r: "sample_matcher \<in> reachable sample_platform (\<lambda>e::unit. True)"
    unfolding sample_matcher_def by (rule reachable.constructed)
  have c: "Map_get (mapRootToExpressionConfig sample_matcher) (Some ''file:///ws'')
      = Some [''build/'']"
    by (simp add: sample_matcher_def sync_defs)
  from maps_in_sync [OF r] r c show ?thesis
    by blast
qed

section \<open>Which matcher and which path \<open>matches\<close> uses\<close>

text \<open>
  C2. \<open>matches(resource)\<close> uses the compiled matcher stored for the resource's owning
  folder when there is one, and the \<open>NO_ROOT\<close> compiled matcher otherwise. For a resource
  in a folder the tested path is the normalized path relative to the folder's
  file-system path, for a resource in no folder it is the resource's file-system path.
  So for the folder \<open>/ws\<close> and the resource \<open>/ws/src/file.txt\<close>, with a path library
  that gives \<open>src/file.txt\<close> as the normalized relative path, the result is what the
  matcher reports for \<open>src/file.txt\<close>.
\<close>

theorem matches_selects_root_matcher:
  "(getWorkspaceFolder w resource = Some f
      \<and> Map_get (mapRootToParsedExpression st) (Some (uri_toString pf (uri f))) = Some p
    \<longrightarrow> matches pf w st resource
        = Inr (truthy (run p (paths_normalize pf
            (paths_relative pf (uri_fsPath pf (uri f)) (uri_fsPath pf resource))))))
   \<and> (getWorkspaceFolder w resource = Some f
      \<and> Map_get (mapRootToParsedExpression st) (Some (uri_toString pf (uri f))) = None
      \<and> Map_get (mapRootToParsedExpression st) NO_ROOT = Some p
    \<longrightarrow> matches pf w st resource
        = Inr (truthy (run p (paths_normalize pf
            (paths_relative pf (uri_fsPath pf (uri f)) (uri_fsPath pf resource))))))
   \<and> (getWorkspaceFolder w resource = None
      \<and> Map_get (mapRootToParsedExpression st) NO_ROOT = Some p
    \<longrightarrow> matches pf w st resource = Inr (truthy (run p (uri_fsPath pf resource))))
   \<and> (getWorkspaceFolder w resource = Some f
      \<and> Map_get (mapRootToParsedExpression st) (Some (uri_toString pf (uri f))) = Some p
      \<and> uri_fsPath pf (uri f) = ''/ws'' \<and> uri_fsPath pf resource = ''/ws/src/file.txt''
      \<and> paths_normalize pf (paths_relative pf ''/ws'' ''/ws/src/file.txt'') = ''src/file.txt''
    \<longrightarrow> matches pf w st resource = Inr (truthy (run p ''src/file.txt'')))"
  by (simp add: matches_def Let_def Map_has_def Map_get_def)

theorem matches_selects_root_matcher_witness:
  "getWorkspaceFolder (sample_world [''/ws''] sample_provider) ''/ws/src/file.txt''
     = Some \<lparr>uri = ''/ws''\<rparr>
   \<and> Map_get (mapRootToParsedExpression sample_matcher) (Some ''file:///ws'')
     = Some \<lparr>ref = 0, run = sample_parse [''build/'']\<rparr>
   \<and> paths_normalize sample_platform
        (paths_relative sample_platform ''/ws'' ''/ws/src/file.txt'') = ''src/file.txt''
   \<and> matches sample_platform (sample_world [''/ws''] sample_provider) sample_matcher
        ''/ws/src/file.txt''
     = Inr (truthy (run \<lparr>ref = 0, run = sample_parse [''build/'']\<rparr> ''src/file.txt''))
   \<and> getWorkspaceFolder (sample_world [''/ws''] sample_provider) ''/tmp/a.log'' = None
   \<and> Map_get (mapRootToParsedExpression sample_matcher) NO_ROOT
     = Some \<lparr>ref = 1, run = sample_parse [''/tmp'']\<rparr>
   \<and> matches sample_platform (sample_world [''/ws''] sample_provider) sample_matcher
        ''/tmp/a.log''
     = Inr (truthy (run \<lparr>ref = 1, run = sample_parse [''/tmp'']\<rparr> ''/tmp/a.log''))
   \<and> getWorkspaceFolder (sample_world [''/ws'', ''/other''] sample_provider) ''/other/tmp''
     = Some \<lparr>uri = ''/other''\<rparr>
   \<and> Map_get (mapRootToParsedExpression sample_matcher) (Some ''file:///other'') = None
   \<and> matches sample_platform (sample_world [''/ws'', ''/other''] sample_provider)
        sample_matcher ''/other/tmp''
     = Inr (truthy (run \<lparr>ref = 1, run = sample_parse [''/tmp'']\<rparr> ''tmp''))"
proof -
  let ?w = "sample_world [''/ws''] sample_provider"
  let ?p = "\<lparr>ref = 0, run = sample_parse [''build/'']\<rparr>"
  let ?q = "\<lparr>ref = 1, run = sample_parse [''/tmp'']\<rparr>"
  have f: "getWorkspaceFolder ?w ''/ws/src/file.txt'' = Some \<lparr>uri = ''/ws''\<rparr>"
    and g: "getWorkspaceFolder ?w ''/tmp/a.log'' = None"
    by (simp_all add: sample_world_def ownerRootOf_def owns_def)
  have p: "Map_get (mapRootToParsedExpression sample_matcher)
        (Some (uri_toString sample_platform (uri \<lparr>uri = ''/ws''\<rparr>))) = Some ?p"
    and q: "Map_get (mapRootToParsedExpression sample_matcher) NO_ROOT = Some ?q"
    by (simp_all add: sample_matcher_def sync_defs)
  have k: "uri_toString sample_platform (uri \<lparr>uri = ''/ws''\<rparr>) = ''file:///ws''"
    by (simp add: sample_platform_def)
  have n: "paths_normalize sample_platform
        (paths_relative sample_platform ''/ws'' ''/ws/src/file.txt'') = ''src/file.txt''"
    and s: "uri_fsPath sample_platform (uri \<lparr>uri = ''/ws''\<rparr>) = ''/ws''"
      "uri_fsPath sample_platform ''/ws/src/file.txt'' = ''/ws/src/file.txt''"
      "uri_fsPath sample_platform ''/tmp/a.log'' = ''/tmp/a.log''"
    by (simp_all add: sample_platform_def sample_relative_def)
  have a: "matches sample_platform ?w sample_matcher ''/ws/src/file.txt''
      = Inr (truthy (run ?p ''src/file.txt''))"
    using matches_selects_root_matcher
      [of ?w "''/ws/src/file.txt''" "\<lparr>uri = ''/ws''\<rparr>" sample_matcher sample_platform ?p]
      f p n s
    by blast
  have b: "matches sample_platform ?w sample_matcher ''/tmp/a.log''
      = Inr (truthy (run ?q (uri_fsPath sample_platform ''/tmp/a.log'')))"
    using matches_selects_root_matcher
      [of ?w "''/tmp/a.log''" "\<lparr>uri = ''/ws''\<rparr>" sample_matcher sample_platform ?q]
      g q
    by blast
  let ?v = "sample_world [''/ws'', ''/other''] sample_provider"
  have h: "getWorkspaceFolder ?v ''/other/tmp'' = Some \<lparr>uri = ''/other''\<rparr>"
    by (simp add: sample_world_def ownerRootOf_def owns_def)
  have o: "Map_get (mapRootToParsedExpression sample_matcher)
        (Some (uri_toString sample_platform (uri \<lparr>uri = ''/other''\<rparr>))) = None"
    by (simp add: sample_matcher_def sync_defs)
  have t: "uri_toString sample_platform (uri \<lparr>uri = ''/other''\<rparr>) = ''file:///other''"
    "paths_normalize sample_platform (paths_relative sample_platform
       (uri_fsPath sample_platform (uri \<lparr>uri = ''/other''\<rparr>))
       (uri_fsPath sample_platform ''/other/tmp'')) = ''tmp''"
    by (simp_all add: sample_platform_def sample_relative_def)
  have c: "matches sample_platform ?v sample_matcher ''/other/tmp''
      = Inr (truthy (run ?q (paths_normalize sample_platform (paths_relative sample_platform
          (uri_fsPath sample_platform (uri \<lparr>uri = ''/other''\<rparr>))
          (uri_fsPath sample_platform ''/other/tmp'')))))"
    using matches_selects_root_matcher
      [of ?v "''/other/tmp''" "\<lparr>uri = ''/other''\<rparr>" sample_matcher sample_platform ?q]
      h o q
    by blast
  from f g p q k n a b s h o t c show ?thesis
    by simp
qed

section \<open>Equality gating\<close>

text \<open>
  C3. In a pass, for a folder and for \<open>NO_ROOT\<close>: when the fetched exclusion config is
  deeply equal to the stored one, the step changes neither the state nor \<open>changed\<close>;
  otherwise it stores a copy of the fetched config and the compiled matcher that
  \<open>parse\<close> returns for it under the root key and sets \<open>changed\<close>. Over the whole pass:
  a root key whose fetched config equals the stored one, and whose folder is found, keeps
  its stored config and the very same compiled matcher, and when this holds for all
  folders, for \<open>NO_ROOT\<close> and for all stored keys, the pass changes nothing and fires
  nothing. A folder, or \<open>NO_ROOT\<close>, whose fetched config is not the stored one makes the
  pass record a change, so that a pass that comes from an event fires once; after the
  pass the fetched config is stored for it and its compiled matcher is one that a
  \<open>parse\<close> call of this pass returned for that config.
\<close>

theorem equality_gating:
  fixes st :: "'e matcher" and cs :: "bool \<times> 'e matcher"
  shows
   "(Map_get (mapRootToExpressionConfig (snd cs)) (Some (uri_toString pf (uri folder)))
        = Some (globFn w (Some (uri folder)))
      \<longrightarrow> addFolder pf w folder cs = cs)
    \<and> (Map_get (mapRootToExpressionConfig (snd cs)) (Some (uri_toString pf (uri folder)))
        \<noteq> Some (globFn w (Some (uri folder)))
      \<longrightarrow> addFolder pf w folder cs =
         (True,
          (snd cs)\<lparr>mapRootToParsedExpression :=
                     AList.update (Some (uri_toString pf (uri folder)))
                       \<lparr>ref = glob_ref pf (nextRef (snd cs)) (globFn w (Some (uri folder))),
                          run = glob_parse pf (globFn w (Some (uri folder)))\<rparr>
                       (mapRootToParsedExpression (snd cs)),
                   mapRootToExpressionConfig :=
                     AList.update (Some (uri_toString pf (uri folder)))
                       (objects_clone (globFn w (Some (uri folder))))
                       (mapRootToExpressionConfig (snd cs)),
                   nextRef := Suc (nextRef (snd cs))\<rparr>))
    \<and> (Map_get (mapRootToExpressionConfig (snd cs)) NO_ROOT = Some (globFn w None)
      \<longrightarrow> setGlobal pf w cs = cs)
    \<and> (Map_get (mapRootToExpressionConfig (snd cs)) NO_ROOT \<noteq> Some (globFn w None)
      \<longrightarrow> setGlobal pf w cs =
         (True,
          (snd cs)\<lparr>mapRootToParsedExpression :=
                     AList.update NO_ROOT
                       \<lparr>ref = glob_ref pf (nextRef (snd cs)) (globFn w None),
                          run = glob_parse pf (globFn w None)\<rparr>
                       (mapRootToParsedExpression (snd cs)),
                   mapRootToExpressionConfig :=
                     AList.update NO_ROOT (objects_clone (globFn w None))
                       (mapRootToExpressionConfig (snd cs)),
                   nextRef := Suc (nextRef (snd cs))\<rparr>))
    \<and> ((\<forall>g \<in> set (folders w). Some (uri_toString pf (uri g)) = key \<longrightarrow>
           Map_get (mapRootToExpressionConfig st) key = Some (globFn w (Some (uri g))))
        \<and> (key = NO_ROOT \<longrightarrow> Map_get (mapRootToExpressionConfig st) key = Some (globFn w None))
        \<and> owned pf w key
      \<longrightarrow> Map_get (mapRootToParsedExpression (updateExcludes pf w fromEvent st)) key
            = Map_get (mapRootToParsedExpression st) key
          \<and> Map_get (mapRootToExpressionConfig (updateExcludes pf w fromEvent st)) key
            = Map_get (mapRootToExpressionConfig st) key)
    \<and> ((\<forall>g \<in> set (folders w).
           Map_get (mapRootToExpressionConfig st) (Some (uri_toString pf (uri g)))
             = Some (globFn w (Some (uri g))))
        \<and> Map_get (mapRootToExpressionConfig st) NO_ROOT = Some (globFn w None)
        \<and> (\<forall>k \<in> set (map fst (mapRootToExpressionConfig st)). owned pf w k)
      \<longrightarrow> updateExcludes pf w fromEvent st = st)
    \<and> (folder \<in> set (folders w)
        \<and> Map_get (mapRootToExpressionConfig st) (Some (uri_toString pf (uri folder)))
            \<noteq> Some (globFn w (Some (uri folder)))
      \<longrightarrow> fst (syncSteps pf w st)
          \<and> fireCount (updateExcludes pf w True st) = Suc (fireCount st)
          \<and> fireCount (updateExcludes pf w False st) = fireCount st)
    \<and> (folder \<in> set (folders w)
        \<and> (\<forall>g \<in> set (folders w).
              uri_toString pf (uri g) = uri_toString pf (uri folder) \<longrightarrow>
              globFn w (Some (uri g)) = globFn w (Some (uri folder)))
        \<and> owned pf w (Some (uri_toString pf (uri folder)))
      \<longrightarrow> Map_get (mapRootToExpressionConfig (updateExcludes pf w fromEvent st))
              (Some (uri_toString pf (uri folder)))
            = Some (objects_clone (globFn w (Some (uri folder))))
          \<and> (Map_get (mapRootToExpressionConfig st) (Some (uri_toString pf (uri folder)))
                \<noteq> Some (globFn w (Some (uri folder)))
             \<longrightarrow> compiled_in_pass pf st (updateExcludes pf w fromEvent st)
                   (Some (uri_toString pf (uri folder))) (globFn w (Some (uri folder)))))
    \<and> Map_get (mapRootToExpressionConfig (updateExcludes pf w fromEvent st)) NO_ROOT
        = Some (objects_clone (globFn w None))
    \<and> (Map_get (mapRootToExpressionConfig st) NO_ROOT \<noteq> Some (globFn w None)
      \<longrightarrow> fst (syncSteps pf w st)
          \<and> fireCount (updateExcludes pf w True st) = Suc (fireCount st)
          \<and> fireCount (updateExcludes pf w False st) = fireCount st
          \<and> compiled_in_pass pf st (updateExcludes pf w fromEvent st) NO_ROOT (globFn w None))"
proof -
  have step_same: "Map_get (mapRootToExpressionConfig (snd cs)) (Some (uri_toString pf (uri folder)))
        = Some (globFn w (Some (uri folder))) \<longrightarrow> addFolder pf w folder cs = cs"
    by (simp add: addFolder_setExcludes setExcludes_same)
  have step_differs: "Map_get (mapRootToExpressionConfig (snd cs))
        (Some (uri_toString pf (uri folder))) \<noteq> Some (globFn w (Some (uri folder)))
      \<longrightarrow> addFolder pf w folder cs =
         (True,
          (snd cs)\<lparr>mapRootToParsedExpression :=
                     AList.update (Some (uri_toString pf (uri folder)))
                       \<lparr>ref = glob_ref pf (nextRef (snd cs)) (globFn w (Some (uri folder))),
                          run = glob_parse pf (globFn w (Some (uri folder)))\<rparr>
                       (mapRootToParsedExpression (snd cs)),
                   mapRootToExpressionConfig :=
                     AList.update (Some (uri_toString pf (uri folder)))
                       (objects_clone (globFn w (Some (uri folder))))
                       (mapRootToExpressionConfig (snd cs)),
                   nextRef := Suc (nextRef (snd cs))\<rparr>)"
    by (simp add: addFolder_setExcludes setExcludes_differs objects_clone_def)
  have global_same: "Map_get (mapRootToExpressionConfig (snd cs)) NO_ROOT = Some (globFn w None)
      \<longrightarrow> setGlobal pf w cs = cs"
    by (simp add: setGlobal_setExcludes setExcludes_same)
  have global_differs: "Map_get (mapRootToExpressionConfig (snd cs)) NO_ROOT
        \<noteq> Some (globFn w None)
      \<longrightarrow> setGlobal pf w cs =
         (True,
          (snd cs)\<lparr>mapRootToParsedExpression :=
                     AList.update NO_ROOT
                       \<lparr>ref = glob_ref pf (nextRef (snd cs)) (globFn w None),
                          run = glob_parse pf (globFn w None)\<rparr>
                       (mapRootToParsedExpression (snd cs)),
                   mapRootToExpressionConfig :=
                     AList.update NO_ROOT (objects_clone (globFn w None))
                       (mapRootToExpressionConfig (snd cs)),
                   nextRef := Suc (nextRef (snd cs))\<rparr>)"
    by (simp add: setGlobal_setExcludes setExcludes_differs objects_clone_def)
  have pass_same: "(\<forall>g \<in> set (folders w). Some (uri_toString pf (uri g)) = key \<longrightarrow>
           Map_get (mapRootToExpressionConfig st) key = Some (globFn w (Some (uri g))))
        \<and> (key = NO_ROOT \<longrightarrow> Map_get (mapRootToExpressionConfig st) key = Some (globFn w None))
        \<and> owned pf w key
      \<longrightarrow> Map_get (mapRootToParsedExpression (updateExcludes pf w fromEvent st)) key
            = Map_get (mapRootToParsedExpression st) key
          \<and> Map_get (mapRootToExpressionConfig (updateExcludes pf w fromEvent st)) key
            = Map_get (mapRootToExpressionConfig st) key"
  proof
    assume "(\<forall>g \<in> set (folders w). Some (uri_toString pf (uri g)) = key \<longrightarrow>
           Map_get (mapRootToExpressionConfig st) key = Some (globFn w (Some (uri g))))
        \<and> (key = NO_ROOT \<longrightarrow> Map_get (mapRootToExpressionConfig st) key = Some (globFn w None))
        \<and> owned pf w key"
    then have "same_at key st (snd (syncSteps pf w st))"
      by (intro pass_keeps_root) simp_all
    then show "Map_get (mapRootToParsedExpression (updateExcludes pf w fromEvent st)) key
            = Map_get (mapRootToParsedExpression st) key
          \<and> Map_get (mapRootToExpressionConfig (updateExcludes pf w fromEvent st)) key
            = Map_get (mapRootToExpressionConfig st) key"
      by (simp add: same_at_def maps_updateExcludes)
  qed
  have pass_identity: "(\<forall>g \<in> set (folders w).
           Map_get (mapRootToExpressionConfig st) (Some (uri_toString pf (uri g)))
             = Some (globFn w (Some (uri g))))
        \<and> Map_get (mapRootToExpressionConfig st) NO_ROOT = Some (globFn w None)
        \<and> (\<forall>k \<in> set (map fst (mapRootToExpressionConfig st)). owned pf w k)
      \<longrightarrow> updateExcludes pf w fromEvent st = st"
  proof
    assume "(\<forall>g \<in> set (folders w).
           Map_get (mapRootToExpressionConfig st) (Some (uri_toString pf (uri g)))
             = Some (globFn w (Some (uri g))))
        \<and> Map_get (mapRootToExpressionConfig st) NO_ROOT = Some (globFn w None)
        \<and> (\<forall>k \<in> set (map fst (mapRootToExpressionConfig st)). owned pf w k)"
    then have "syncSteps pf w st = (False, st)"
      by (intro all_same_pass) simp_all
    then show "updateExcludes pf w fromEvent st = st"
      by (simp add: updateExcludes_def)
  qed
  have folder_changes: "folder \<in> set (folders w)
        \<and> Map_get (mapRootToExpressionConfig st) (Some (uri_toString pf (uri folder)))
            \<noteq> Some (globFn w (Some (uri folder)))
      \<longrightarrow> fst (syncSteps pf w st)
          \<and> fireCount (updateExcludes pf w True st) = Suc (fireCount st)
          \<and> fireCount (updateExcludes pf w False st) = fireCount st"
    using differing_folder_changes [of folder w st pf] changed_pass_fires [of pf w st]
    by blast
  have folder_replaced: "folder \<in> set (folders w)
        \<and> (\<forall>g \<in> set (folders w).
              uri_toString pf (uri g) = uri_toString pf (uri folder) \<longrightarrow>
              globFn w (Some (uri g)) = globFn w (Some (uri folder)))
        \<and> owned pf w (Some (uri_toString pf (uri folder)))
      \<longrightarrow> Map_get (mapRootToExpressionConfig (updateExcludes pf w fromEvent st))
              (Some (uri_toString pf (uri folder)))
            = Some (objects_clone (globFn w (Some (uri folder))))
          \<and> (Map_get (mapRootToExpressionConfig st) (Some (uri_toString pf (uri folder)))
                \<noteq> Some (globFn w (Some (uri folder)))
             \<longrightarrow> compiled_in_pass pf st (updateExcludes pf w fromEvent st)
                   (Some (uri_toString pf (uri folder))) (globFn w (Some (uri folder))))"
  proof (intro impI, elim conjE)
    assume f: "folder \<in> set (folders w)"
      and det: "\<forall>g \<in> set (folders w).
              uri_toString pf (uri g) = uri_toString pf (uri folder) \<longrightarrow>
              globFn w (Some (uri g)) = globFn w (Some (uri folder))"
      and own: "owned pf w (Some (uri_toString pf (uri folder)))"
    show "Map_get (mapRootToExpressionConfig (updateExcludes pf w fromEvent st))
              (Some (uri_toString pf (uri folder)))
            = Some (objects_clone (globFn w (Some (uri folder))))
          \<and> (Map_get (mapRootToExpressionConfig st) (Some (uri_toString pf (uri folder)))
                \<noteq> Some (globFn w (Some (uri folder)))
             \<longrightarrow> compiled_in_pass pf st (updateExcludes pf w fromEvent st)
                   (Some (uri_toString pf (uri folder))) (globFn w (Some (uri folder))))"
      unfolding objects_clone_def using f det own by (rule pass_sets_root)
  qed
  have global_replaced: "Map_get (mapRootToExpressionConfig (updateExcludes pf w fromEvent st))
        NO_ROOT = Some (objects_clone (globFn w None))"
    and global_changes: "Map_get (mapRootToExpressionConfig st) NO_ROOT \<noteq> Some (globFn w None)
      \<longrightarrow> fst (syncSteps pf w st)
          \<and> fireCount (updateExcludes pf w True st) = Suc (fireCount st)
          \<and> fireCount (updateExcludes pf w False st) = fireCount st
          \<and> compiled_in_pass pf st (updateExcludes pf w fromEvent st) NO_ROOT (globFn w None)"
    using pass_sets_NO_ROOT [of pf w fromEvent st] changed_pass_fires [of pf w st]
    unfolding objects_clone_def by blast+
  show ?thesis
    by (intro conjI)
       (rule step_same, rule step_differs, rule global_same, rule global_differs,
        rule pass_same, rule pass_identity, rule folder_changes, rule folder_replaced,
        rule global_replaced, rule global_changes)
qed

theorem equality_gating_witness:
  "Map_get (mapRootToExpressionConfig (snd (False, sample_matcher)))
       (Some (uri_toString sample_platform (uri \<lparr>uri = ''/ws''\<rparr>)))
     = Some (globFn (sample_world [''/ws''] sample_provider) (Some (uri \<lparr>uri = ''/ws''\<rparr>)))
   \<and> addFolder sample_platform (sample_world [''/ws''] sample_provider) \<lparr>uri = ''/ws''\<rparr>
        (False, sample_matcher) = (False, sample_matcher)
   \<and> setGlobal sample_platform (sample_world [''/ws''] sample_provider) (False, sample_matcher)
       = (False, sample_matcher)
   \<and> updateExcludes sample_platform (sample_world [''/ws''] sample_provider) True sample_matcher
       = sample_matcher
   \<and> Map_get (mapRootToParsedExpression
         (updateExcludes sample_platform (sample_world [''/ws''] sample_provider) True
            sample_matcher)) (Some ''file:///ws'')
     = Some \<lparr>ref = 0, run = sample_parse [''build/'']\<rparr>
   \<and> Map_get (mapRootToExpressionConfig (snd (False, sample_matcher)))
       (Some (uri_toString sample_platform (uri \<lparr>uri = ''/ws''\<rparr>)))
     \<noteq> Some (globFn (sample_world [''/ws''] other_provider) (Some (uri \<lparr>uri = ''/ws''\<rparr>)))
   \<and> fst (addFolder sample_platform (sample_world [''/ws''] other_provider) \<lparr>uri = ''/ws''\<rparr>
        (False, sample_matcher))
   \<and> fst (setGlobal sample_platform (sample_world [''/ws''] other_provider)
        (False, sample_matcher))
   \<and> fst (syncSteps sample_platform (sample_world [''/ws''] other_provider) sample_matcher)
   \<and> fireCount (updateExcludes sample_platform (sample_world [''/ws''] other_provider) True
        sample_matcher) = 1
   \<and> Map_get (mapRootToExpressionConfig
         (updateExcludes sample_platform (sample_world [''/ws''] other_provider) True
            sample_matcher)) (Some ''file:///ws'') = Some [''out/'']
   \<and> compiled_in_pass sample_platform sample_matcher
        (updateExcludes sample_platform (sample_world [''/ws''] other_provider) True
           sample_matcher) (Some ''file:///ws'') [''out/'']
   \<and> Map_get (mapRootToExpressionConfig
         (updateExcludes sample_platform (sample_world [''/ws''] other_provider) True
            sample_matcher)) NO_ROOT = Some [''/var'']
   \<and> compiled_in_pass sample_platform sample_matcher
        (updateExcludes sample_platform (sample_world [''/ws''] other_provider) True
           sample_matcher) NO_ROOT [''/var'']"
proof -
  let ?w = "sample_world [''/ws''] sample_provider"
  let ?v = "sample_world [''/ws''] other_provider"
  let ?f = "\<lparr>uri = ''/ws''\<rparr> :: string workspace_folder"
  let ?cs = "(False, sample_matcher)"
  have c: "mapRootToExpressionConfig sample_matcher
      = [(Some ''file:///ws'', [''build/'']), (None, [''/tmp''])]"
    and p: "Map_get (mapRootToParsedExpression sample_matcher) (Some ''file:///ws'')
      = Some \<lparr>ref = 0, run = sample_parse [''build/'']\<rparr>"
    and fc: "fireCount sample_matcher = 0"
    by (simp_all add: sample_matcher_def sync_defs)
  have k: "uri_toString sample_platform (uri ?f) = ''file:///ws''"
    and fetched: "globFn ?v (Some (uri ?f)) = [''out/'']" "globFn ?v None = [''/var'']"
    by (simp_all add: sample_world_def sample_platform_def other_provider_def)
  have same_root: "Map_get (mapRootToExpressionConfig (snd ?cs))
        (Some (uri_toString sample_platform (uri ?f))) = Some (globFn ?w (Some (uri ?f)))"
    and same_global: "Map_get (mapRootToExpressionConfig (snd ?cs)) NO_ROOT
        = Some (globFn ?w None)"
    and other_root: "Map_get (mapRootToExpressionConfig (snd ?cs))
        (Some (uri_toString sample_platform (uri ?f))) \<noteq> Some (globFn ?v (Some (uri ?f)))"
    and other_global: "Map_get (mapRootToExpressionConfig (snd ?cs)) NO_ROOT
        \<noteq> Some (globFn ?v None)"
    by (simp_all add: c Map_get_def NO_ROOT_def sample_world_def sample_platform_def
        sample_provider_def other_provider_def)
  have all_roots: "\<forall>g \<in> set (folders ?w).
        Map_get (mapRootToExpressionConfig sample_matcher)
          (Some (uri_toString sample_platform (uri g))) = Some (globFn ?w (Some (uri g)))"
    and all_owned: "\<forall>k \<in> set (map fst (mapRootToExpressionConfig sample_matcher)).
        owned sample_platform ?w k"
    by (simp_all add: c Map_get_def owned_def sample_world_def sample_platform_def
        sample_provider_def ownerRootOf_def owns_def)
  have key_roots: "\<forall>g \<in> set (folders ?w).
        Some (uri_toString sample_platform (uri g)) = Some ''file:///ws'' \<longrightarrow>
        Map_get (mapRootToExpressionConfig sample_matcher) (Some ''file:///ws'')
          = Some (globFn ?w (Some (uri g)))"
    and key_owned: "owned sample_platform ?w (Some ''file:///ws'')"
    by (simp_all add: c Map_get_def owned_def sample_world_def sample_platform_def
        sample_provider_def ownerRootOf_def owns_def)
  have member: "?f \<in> set (folders ?v)"
    and det: "\<forall>g \<in> set (folders ?v).
        uri_toString sample_platform (uri g) = uri_toString sample_platform (uri ?f) \<longrightarrow>
        globFn ?v (Some (uri g)) = globFn ?v (Some (uri ?f))"
    and owned_v: "owned sample_platform ?v (Some (uri_toString sample_platform (uri ?f)))"
    by (simp_all add: owned_def sample_world_def sample_platform_def other_provider_def
        ownerRootOf_def owns_def)
  have other_root_st: "Map_get (mapRootToExpressionConfig sample_matcher)
        (Some (uri_toString sample_platform (uri ?f))) \<noteq> Some (globFn ?v (Some (uri ?f)))"
    and other_global_st: "Map_get (mapRootToExpressionConfig sample_matcher) NO_ROOT
        \<noteq> Some (globFn ?v None)"
    using other_root other_global by simp_all
  note same = equality_gating [where cs = ?cs and st = sample_matcher and pf = sample_platform
      and w = ?w and folder = ?f and key = "Some ''file:///ws''" and fromEvent = True]
  note other = equality_gating [where cs = ?cs and st = sample_matcher and pf = sample_platform
      and w = ?v and folder = ?f and key = "Some ''file:///ws''" and fromEvent = True]
  have a1: "addFolder sample_platform ?w ?f ?cs = ?cs"
    and a2: "setGlobal sample_platform ?w ?cs = ?cs"
    using same same_root same_global by blast+
  have a3: "updateExcludes sample_platform ?w True sample_matcher = sample_matcher"
    using same all_roots all_owned same_global by simp
  have a4: "Map_get (mapRootToParsedExpression (updateExcludes sample_platform ?w True
        sample_matcher)) (Some ''file:///ws'')
      = Map_get (mapRootToParsedExpression sample_matcher) (Some ''file:///ws'')"
    using same key_roots key_owned by (simp add: NO_ROOT_def)
  have b1: "fst (addFolder sample_platform ?v ?f ?cs)"
    using other other_root by simp
  have b2: "fst (setGlobal sample_platform ?v ?cs)"
    using other other_global by simp
  have b3: "fst (syncSteps sample_platform ?v sample_matcher)"
    and b4: "fireCount (updateExcludes sample_platform ?v True sample_matcher)
      = Suc (fireCount sample_matcher)"
    using other member other_root_st by blast+
  have b5: "Map_get (mapRootToExpressionConfig (updateExcludes sample_platform ?v True
        sample_matcher)) (Some (uri_toString sample_platform (uri ?f)))
      = Some (objects_clone (globFn ?v (Some (uri ?f))))"
    and b6: "compiled_in_pass sample_platform sample_matcher
        (updateExcludes sample_platform ?v True sample_matcher)
        (Some (uri_toString sample_platform (uri ?f))) (globFn ?v (Some (uri ?f)))"
    using other member det owned_v other_root_st by blast+
  have b7: "Map_get (mapRootToExpressionConfig (updateExcludes sample_platform ?v True
        sample_matcher)) NO_ROOT = Some (objects_clone (globFn ?v None))"
    and b8: "compiled_in_pass sample_platform sample_matcher
        (updateExcludes sample_platform ?v True sample_matcher) NO_ROOT (globFn ?v None)"
    using other other_global_st by blast+
  from same_root other_root a1 a2 a3 a4 b1 b2 b3 b4 b5 b6 b7 b8 p fc k fetched
  show ?thesis
    by (simp add: objects_clone_def)
qed

section \<open>A folder removed from inside another folder\<close>

text \<open>
  C4. The workspace has the folder \<open>/ws\<close> and the folder \<open>/ws/sub\<close> inside it; then
  \<open>/ws/sub\<close> is removed from the workspace and the folders-changed event is delivered.
  The second loop asks \<open>getWorkspaceFolder(URI.parse(root))\<close>, which for
  \<open>file:///ws/sub\<close> finds the folder \<open>/ws\<close> that still owns that path. So the pass keeps
  the stored config and the compiled matcher of the removed folder and fires nothing,
  although no folder has that key any more and the answer of \<open>matches\<close> for a file
  below \<open>/ws/sub\<close> is now another one.
\<close>

theorem nested_root_survives_removal:
  "map fst (mapRootToExpressionConfig nested_matcher)
     = [Some ''file:///ws'', Some ''file:///ws/sub'', None]
   \<and> map (uri_toString sample_platform \<circ> uri) (folders (sample_world [''/ws''] sample_provider))
     = [''file:///ws'']
   \<and> deliver sample_platform (\<lambda>e::unit. True) (sample_world [''/ws''] sample_provider)
        DidChangeWorkspaceFolders nested_matcher = nested_matcher
   \<and> Map_has (mapRootToExpressionConfig nested_matcher) (Some ''file:///ws/sub'')
   \<and> Map_has (mapRootToParsedExpression nested_matcher) (Some ''file:///ws/sub'')
   \<and> fireCount nested_matcher = 0
   \<and> matches sample_platform (sample_world [''/ws'', ''/ws/sub''] sample_provider)
        nested_matcher ''/ws/sub/build/x'' = Inr True
   \<and> matches sample_platform (sample_world [''/ws''] sample_provider)
        nested_matcher ''/ws/sub/build/x'' = Inr False"
  by (simp add: nested_matcher_def sync_defs onDidChangeWorkspaceFolders_def matches_def
      truthy_def)

section \<open>When a pass fires\<close>

text \<open>
  C5. A pass calls \<open>fire\<close> once when it comes from an event and one of its steps set
  \<open>changed\<close>, and not at all otherwise; the pass of the constructor does not come from
  an event, and after construction nothing has been fired. In a reachable state
  \<open>changed\<close> is set exactly when the pass has changed the state.
\<close>

theorem fires_once_iff_changed_by_event:
  "fireCount (updateExcludes pf w fromEvent st)
     = fireCount st + (if fromEvent \<and> fst (syncSteps pf w st) then 1 else 0)
   \<and> fireCount (construct pf w) = 0
   \<and> (st \<in> reachable pf shouldUpdate \<longrightarrow>
         (fst (syncSteps pf w st) \<longleftrightarrow> snd (syncSteps pf w st) \<noteq> st))"
  by (simp add: updateExcludes_def Let_def fire_def construct_def registerListeners_def
      subscribe_def new_matcher_def fireCount_syncSteps changed_iff_state_changed)

theorem fires_once_iff_changed_by_event_witness:
  "sample_matcher \<in> reachable sample_platform (\<lambda>e::unit. True)
   \<and> fst (syncSteps sample_platform (sample_world [''/ws''] other_provider) sample_matcher)
   \<and> snd (syncSteps sample_platform (sample_world [''/ws''] other_provider) sample_matcher)
       \<noteq> sample_matcher
   \<and> fireCount (updateExcludes sample_platform (sample_world [''/ws''] other_provider) True
         sample_matcher) = 1
   \<and> fireCount (updateExcludes sample_platform (sample_world [''/ws''] other_provider) False
         sample_matcher) = 0
   \<and> \<not> fst (syncSteps sample_platform (sample_world [''/ws''] sample_provider) sample_matcher)
   \<and> fireCount (updateExcludes sample_platform (sample_world [''/ws''] sample_provider) True
         sample_matcher) = 0"
proof -
  let ?v = "sample_world [''/ws''] other_provider"
  let ?w = "sample_world [''/ws''] sample_provider"
  have r: "sample_matcher \<in> reachable sample_platform (\<lambda>e::unit. True)"
    unfolding sample_matcher_def by (rule reachable.constructed)
  have c: "fst (syncSteps sample_platform ?v sample_matcher)"
    and d: "\<not> fst (syncSteps sample_platform ?w sample_matcher)"
    and f: "fireCount sample_matcher = 0"
    by (simp_all add: sample_matcher_def sync_defs)
  from fires_once_iff_changed_by_event
    [of sample_platform ?v True sample_matcher "\<lambda>e::unit. True"]
    fires_once_iff_changed_by_event
    [of sample_platform ?v False sample_matcher "\<lambda>e::unit. True"]
    fires_once_iff_changed_by_event
    [of sample_platform ?w True sample_matcher "\<lambda>e::unit. True"]
    r c d f
  show ?thesis
    by simp
qed

section \<open>Configuration-change events that \<open>shouldUpdate\<close> rejects\<close>

text \<open>
  C6. When \<open>shouldUpdate\<close> is false for every configuration-change event, any sequence of
  configuration-change events leaves the whole state as it is, whatever the glob
  provider answers by then: no pass runs (no compiled matcher is allocated, no map
  changes) and nothing is fired.
\<close>

theorem rejected_events_never_synchronize:
  assumes "\<forall>e. \<not> shouldUpdate e"
  shows "fold (\<lambda>(w, e). deliver pf shouldUpdate w (DidChangeConfiguration e)) events st = st"
  using assms by (induction events) (auto simp: onDidChangeConfiguration_def)

theorem rejected_events_never_synchronize_witness:
  "(\<forall>e::unit. \<not> (\<lambda>e. False) e)
   \<and> globFn (sample_world [''/ws''] other_provider) None
       \<noteq> globFn (sample_world [''/ws''] sample_provider) None
   \<and> fold (\<lambda>(w, e). deliver sample_platform (\<lambda>e. False) w (DidChangeConfiguration e))
        [(sample_world [''/ws''] other_provider, ()), (sample_world [] other_provider, ())]
        sample_matcher = sample_matcher"
  using rejected_events_never_synchronize [of "\<lambda>e::unit. False" sample_platform
      "[(sample_world [''/ws''] other_provider, ()), (sample_world [] other_provider, ())]"
      sample_matcher]
  by (simp add: sample_world_def sample_provider_def other_provider_def)

section \<open>\<open>matches\<close> and the \<open>NO_ROOT\<close> matcher\<close>

text \<open>
  C7. \<open>matches\<close> never throws: in every state the matcher can be in when \<open>matches\<close> is
  called (after construction and any sequence of events and disposals) the \<open>NO_ROOT\<close>
  compiled matcher is stored, so there is an applicable compiled matcher for every
  resource, in a folder or not, and \<open>matches\<close> returns a boolean for every resource and
  every workspace. The case of no applicable compiled matcher does not arise.
\<close>

theorem matches_returns_boolean:
  assumes "st \<in> reachable pf shouldUpdate"
  shows "(\<exists>p. Map_get (mapRootToParsedExpression st) NO_ROOT = Some p)
    \<and> (\<exists>b. matches pf w st resource = Inr b)"
  using NO_ROOT_parsed [OF assms] matches_total [OF assms] by simp

theorem matches_returns_boolean_witness:
  "sample_matcher \<in> reachable sample_platform (\<lambda>e::unit. True)
   \<and> (\<exists>p. Map_get (mapRootToParsedExpression sample_matcher) NO_ROOT = Some p)
   \<and> (\<exists>b. matches sample_platform (sample_world [] sample_provider) sample_matcher ''/x''
         = Inr b)
   \<and> matches sample_platform (sample_world [] sample_provider) sample_matcher ''/x''
       = Inr False"
proof -
  have r: "sample_matcher \<in> reachable sample_platform (\<lambda>e::unit. True)"
    unfolding sample_matcher_def by (rule reachable.constructed)
  have v: "matches sample_platform (sample_world [] sample_provider) sample_matcher ''/x''
      = Inr False"
    by (simp add: sample_matcher_def sync_defs matches_def truthy_def)
  from matches_returns_boolean [OF r] r v show ?thesis
    by blast
qed

section \<open>After \<open>dispose\<close>\<close>

text \<open>
  C8. After \<open>dispose\<close> in a reachable state, any sequence of workspace-folder and
  configuration-change events leaves the state as \<open>dispose\<close> left it: no pass runs and
  nothing is fired. \<open>dispose\<close> itself leaves both maps and the counter of notifications
  as they were, and \<open>matches\<close> answers as before and returns a boolean.
\<close>

theorem disposed_ignores_events:
  assumes "st \<in> reachable pf shouldUpdate"
  shows "fold (\<lambda>(w, ev). deliver pf shouldUpdate w ev) events (dispose st) = dispose st
    \<and> mapRootToParsedExpression (dispose st) = mapRootToParsedExpression st
    \<and> mapRootToExpressionConfig (dispose st) = mapRootToExpressionConfig st
    \<and> fireCount (dispose st) = fireCount st
    \<and> nextRef (dispose st) = nextRef st
    \<and> matches pf w' (dispose st) resource = matches pf w' st resource
    \<and> (\<exists>b. matches pf w' (dispose st) resource = Inr b)"
proof -
  have "live (dispose st) = []"
    using assms by (rule live_dispose)
  then have "fold (\<lambda>(w, ev). deliver pf shouldUpdate w ev) events (dispose st) = dispose st"
    by (induction events) (auto simp: deliver_not_live)
  moreover have "mapRootToParsedExpression (dispose st) = mapRootToParsedExpression st"
    by (simp add: dispose_def)
  then have "matches pf w' (dispose st) resource = matches pf w' st resource"
    by (simp only: matches_def)
  moreover have "\<exists>b. matches pf w' st resource = Inr b"
    using assms by (rule matches_total)
  ultimately show ?thesis
    by (simp add: dispose_def)
qed

theorem disposed_ignores_events_witness:
  "sample_matcher \<in> reachable sample_platform (\<lambda>e::unit. True)
   \<and> fold (\<lambda>(w, ev). deliver sample_platform (\<lambda>e::unit. True) w ev)
        [(sample_world [] other_provider, DidChangeWorkspaceFolders),
         (sample_world [''/ws''] other_provider, DidChangeConfiguration ())]
        (dispose sample_matcher) = dispose sample_matcher
   \<and> mapRootToExpressionConfig (dispose sample_matcher)
       = [(Some ''file:///ws'', [''build/'']), (None, [''/tmp''])]
   \<and> fireCount (dispose sample_matcher) = 0
   \<and> matches sample_platform (sample_world [''/ws''] sample_provider) (dispose sample_matcher)
        ''/ws/build/out.txt'' = Inr True"
proof -
  have r: "sample_matcher \<in> reachable sample_platform (\<lambda>e::unit. True)"
    unfolding sample_matcher_def by (rule reachable.constructed)
  have c: "mapRootToExpressionConfig sample_matcher
       = [(Some ''file:///ws'', [''build/'']), (None, [''/tmp''])]"
    and f: "fireCount sample_matcher = 0"
    and m: "matches sample_platform (sample_world [''/ws''] sample_provider) sample_matcher
        ''/ws/build/out.txt'' = Inr True"
    by (simp_all add: sample_matcher_def sync_defs matches_def truthy_def)
  from disposed_ignores_events [OF r, of
      "[(sample_world [] other_provider, DidChangeWorkspaceFolders),
        (sample_world [''/ws''] other_provider, DidChangeConfiguration ())]"
      "sample_world [''/ws''] sample_provider" "''/ws/build/out.txt''"] r c f m
  show ?thesis
    by simp
qed

section \<open>\<open>reset\<close> of \<open>ResourceContextKey\<close>\<close>

text \<open>
  C9. After \<open>set(value)\<close> followed by \<open>reset()\<close> the scheme, language-id, resource and
  extension keys hold nothing, each of them reset once except the language-id key, which
  is reset twice; the filename key is not reset and is as \<open>set(value)\<close> left it: it
  holds the basename of the file-system path of \<open>value\<close>.
\<close>

theorem reset_keeps_filename:
  "key_get (schemeKey (rck_reset (rck_set pf modeId val k))) = None
   \<and> key_get (langIdKey (rck_reset (rck_set pf modeId val k))) = None
   \<and> key_get (resourceKey (rck_reset (rck_set pf modeId val k))) = None
   \<and> rck_get (rck_reset (rck_set pf modeId val k)) = None
   \<and> key_get (extensionKey (rck_reset (rck_set pf modeId val k))) = None
   \<and> resets (schemeKey (rck_reset (rck_set pf modeId val k))) = resets (schemeKey k) + 1
   \<and> resets (langIdKey (rck_reset (rck_set pf modeId val k))) = resets (langIdKey k) + 2
   \<and> resets (resourceKey (rck_reset (rck_set pf modeId val k))) = resets (resourceKey k) + 1
   \<and> resets (extensionKey (rck_reset (rck_set pf modeId val k))) = resets (extensionKey k) + 1
   \<and> filenameKey (rck_reset (rck_set pf modeId val k)) = filenameKey (rck_set pf modeId val k)
   \<and> resets (filenameKey (rck_reset (rck_set pf modeId val k))) = resets (filenameKey k)
   \<and> key_get (filenameKey (rck_reset (rck_set pf modeId (Some u) k)))
       = Some (paths_basename pf (uri_fsPath pf u))"
  by (simp add: rck_reset_def rck_set_def rck_get_def key_reset_def key_set_def key_get_def
      Let_def)

end
